theory Spec2Isabelle
  imports Complex_Main
begin

section \<open>Numbers\<close>

text \<open>
  The source computes with JavaScript numbers. Finite numbers are idealised as reals
  (no rounding error, no overflow). The only place where a non-finite value can arise
  from finite inputs in the functions below is the division in
  \<open>calculateRecommendedStake\<close>, so the result of a division is a \<open>jsnum\<close>, which
  also has the two infinities and NaN, and \<open>Math.min\<close>, \<open>Math.max\<close>, \<open>*\<close> and \<open>>=\<close>
  are given on \<open>jsnum\<close> as ECMAScript defines them there.
\<close>

datatype jsnum = Fin real | PInf | NInf | NaN

definition js_div :: "real \<Rightarrow> real \<Rightarrow> jsnum" where
  "js_div a b =
     (if b \<noteq> 0 then Fin (a / b)
      else if a > 0 then PInf
      else if a < 0 then NInf
      else NaN)"

fun js_min :: "real \<Rightarrow> jsnum \<Rightarrow> jsnum" where
  "js_min a (Fin r) = Fin (min a r)"
| "js_min a PInf = Fin a"
| "js_min a NInf = NInf"
| "js_min a NaN = NaN"

fun js_max :: "real \<Rightarrow> jsnum \<Rightarrow> jsnum" where
  "js_max a (Fin r) = Fin (max a r)"
| "js_max a PInf = PInf"
| "js_max a NInf = Fin a"
| "js_max a NaN = NaN"

fun js_times :: "jsnum \<Rightarrow> real \<Rightarrow> jsnum" where
  "js_times (Fin r) k = Fin (r * k)"
| "js_times PInf k = (if k > 0 then PInf else if k < 0 then NInf else NaN)"
| "js_times NInf k = (if k > 0 then NInf else if k < 0 then PInf else NaN)"
| "js_times NaN k = NaN"

fun js_ge :: "real \<Rightarrow> jsnum \<Rightarrow> bool" where
  "js_ge a (Fin r) = (a \<ge> r)"
| "js_ge a PInf = False"
| "js_ge a NInf = True"
| "js_ge a NaN = False"

text \<open>
  \<open>x.toFixed(2)\<close> read back by \<open>parseFloat\<close> prints and reads the double that \<open>x\<close> is,
  which the reals do not tell; on finite numbers it is a parameter of the functions
  that use it, and the infinities and NaN pass through it unchanged.
\<close>

fun js_toFixed2 :: "(real \<Rightarrow> real) \<Rightarrow> jsnum \<Rightarrow> jsnum" where
  "js_toFixed2 toFixed2 (Fin r) = Fin (toFixed2 r)"
| "js_toFixed2 toFixed2 PInf = PInf"
| "js_toFixed2 toFixed2 NInf = NInf"
| "js_toFixed2 toFixed2 NaN = NaN"

section \<open>Data model (types/trading.ts)\<close>

record TradeConfig =
  cfg_stake :: real
  martingaleMultiplier :: real
  duration :: real
  positiveBarrier :: real
  negativeBarrier :: real
  selectedMarket :: string
  riskPercentage :: real
  cfg_lockedBalance :: real

record AccountInfo =
  balance :: real
  currency :: string
  loginId :: string
  availableBalance :: real
  lockedBalance :: real

record RiskCalculation =
  recommendedStake :: jsnum
  maxRisk :: real
  rc_availableBalance :: real
  rc_riskPercentage :: real
  canTrade :: bool

section \<open>RiskCalculator\<close>

text \<open>
  The loop of \<open>calculateMartingaleSequenceRisk\<close>: the first argument counts the
  iterations still to run (\<open>i\<close> runs from \<open>0\<close> to \<open>maxLevels\<close>), and the loop leaves
  early once the next stake exceeds \<open>baseStake * 32\<close>.
\<close>

fun sequenceRiskLoop :: "nat \<Rightarrow> real \<Rightarrow> real \<Rightarrow> real \<Rightarrow> real \<Rightarrow> real" where
  "sequenceRiskLoop 0 baseStake multiplier totalRisk currentStake = totalRisk"
| "sequenceRiskLoop (Suc k) baseStake multiplier totalRisk currentStake =
     (let totalRisk' = totalRisk + currentStake;
          currentStake' = currentStake * multiplier
      in if currentStake' > baseStake * 32 then totalRisk'
         else sequenceRiskLoop k baseStake multiplier totalRisk' currentStake')"

definition calculateMartingaleSequenceRisk :: "real \<Rightarrow> real \<Rightarrow> nat \<Rightarrow> real" where
  "calculateMartingaleSequenceRisk baseStake multiplier maxLevels =
     sequenceRiskLoop (Suc maxLevels) baseStake multiplier 0 baseStake"

text \<open>The stake before it is rounded for display (\<open>finalStake\<close> in the source).\<close>

definition finalStake :: "AccountInfo \<Rightarrow> real \<Rightarrow> real \<Rightarrow> jsnum" where
  "finalStake accountInfo riskPct multiplier =
     (let available = availableBalance accountInfo;
          riskAmount = (available * riskPct) / 100;
          martingaleSequenceRisk = calculateMartingaleSequenceRisk 1 multiplier 5;
          recommended = js_div riskAmount (martingaleSequenceRisk * 2);
          minStake = 35 / 100;
          maxStake = min 2000 (available / 4)
      in js_max minStake (js_min maxStake recommended))"

definition calculateRecommendedStake ::
  "(real \<Rightarrow> real) \<Rightarrow> AccountInfo \<Rightarrow> real \<Rightarrow> real \<Rightarrow> RiskCalculation" where
  "calculateRecommendedStake toFixed2 accountInfo riskPct multiplier =
     (let available = availableBalance accountInfo;
          riskAmount = (available * riskPct) / 100;
          final = finalStake accountInfo riskPct multiplier
      in \<lparr> recommendedStake = js_toFixed2 toFixed2 final,
           maxRisk = riskAmount,
           rc_availableBalance = available,
           rc_riskPercentage = riskPct,
           canTrade = js_ge available (js_times final 2) \<rparr>)"

text \<open>
  \<open>calculateMartingaleStake\<close> with its fourth parameter, and the call with three
  arguments, where \<open>maxMultiplier\<close> takes its default 10.
\<close>

definition calculateMartingaleStake4 :: "real \<Rightarrow> nat \<Rightarrow> real \<Rightarrow> real \<Rightarrow> real" where
  "calculateMartingaleStake4 baseStake losses multiplier maxMultiplier =
     (if losses = 0 then baseStake
      else (let martingaleStake = baseStake * multiplier ^ losses
            in min martingaleStake (baseStake * maxMultiplier)))"

definition calculateMartingaleStake :: "real \<Rightarrow> nat \<Rightarrow> real \<Rightarrow> real" where
  "calculateMartingaleStake baseStake losses multiplier =
     calculateMartingaleStake4 baseStake losses multiplier 10"

text \<open>
  \<open>validateBarriers\<close>. The messages embed numbers printed by JavaScript; the printing
  function is the parameter \<open>str\<close>.
\<close>

record BarrierValidation =
  isValid :: bool
  errors :: "string list"

definition push :: "bool \<Rightarrow> string \<Rightarrow> string list \<Rightarrow> string list" where
  "push c msg es = (if c then es @ [msg] else es)"

definition validateBarriers ::
  "(real \<Rightarrow> string) \<Rightarrow> real \<Rightarrow> real \<Rightarrow> real \<Rightarrow> real \<Rightarrow> BarrierValidation" where
  "validateBarriers str positive negative minB maxB =
     (let e1 = push (positive \<le> 0) ''Positive barrier must be greater than 0'' [];
          e2 = push (negative \<ge> 0) ''Negative barrier must be less than 0'' e1;
          absPositive = \<bar>positive\<bar>;
          absNegative = \<bar>negative\<bar>;
          e3 = push (absPositive < minB)
                 (''Positive barrier must be at least '' @ str minB) e2;
          e4 = push (absPositive > maxB)
                 (''Positive barrier cannot exceed '' @ str maxB) e3;
          e5 = push (absNegative < minB)
                 (''Negative barrier magnitude must be at least '' @ str minB) e4;
          e6 = push (absNegative > maxB)
                 (''Negative barrier magnitude cannot exceed '' @ str maxB) e5
      in \<lparr> isValid = (length e6 = 0), errors = e6 \<rparr>)"

text \<open>The number of entries a check contributes to the list of violations.\<close>

definition violated :: "bool \<Rightarrow> nat" where
  "violated c = (if c then 1 else 0)"

section \<open>TradingEngine: state\<close>

datatype TradeType = higher | lower

datatype TradeStatus = T_pending | T_won | T_lost | T_active

datatype PairStatus = P_pending | P_completed | P_active

record Trade =
  trade_id :: string
  trade_timestamp :: nat
  trade_type :: TradeType
  stake :: real
  barrier :: real
  market :: string
  trade_status :: TradeStatus
  payout :: "real option"
  profit :: "real option"
  contractId :: "string option"

record TradePair =
  pair_id :: string
  pair_timestamp :: nat
  higherTrade :: Trade
  lowerTrade :: Trade
  totalStake :: real
  pair_totalProfit :: "real option"
  pair_status :: PairStatus

record MarketData =
  symbol :: string
  name :: string
  pip :: real
  currentPrice :: real
  minBarrier :: real
  maxBarrier :: real
  minStake :: real
  maxStake :: real

record TradingState =
  isConnected :: bool
  isTrading :: bool
  accountInfo :: "AccountInfo option"
  currentMarket :: "MarketData option"
  tradeHistory :: "TradePair list"
  totalProfit :: real
  totalLoss :: real
  consecutiveLosses :: nat

datatype error = Error string

section \<open>TradingEngine: stake and barriers\<close>

definition calculateStakeWithMartingale :: "TradingState \<Rightarrow> TradeConfig \<Rightarrow> real" where
  "calculateStakeWithMartingale st config =
     (let stake0 = cfg_stake config;
          stake1 = (if consecutiveLosses st > 0
                    then cfg_stake config * martingaleMultiplier config ^ consecutiveLosses st
                    else stake0)
      in min stake1 (cfg_stake config * 10))"

definition calculateBarriers :: "TradingState \<Rightarrow> real \<Rightarrow> real \<Rightarrow> real \<times> real" where
  "calculateBarriers st pos neg =
     (case currentMarket st of
        None \<Rightarrow> (pos, - \<bar>neg\<bar>)
      | Some m \<Rightarrow>
          (let clampedPositive = max (minBarrier m) (min (maxBarrier m) \<bar>pos\<bar>);
               clampedNegative = - max (minBarrier m) (min (maxBarrier m) \<bar>neg\<bar>)
           in (clampedPositive, clampedNegative)))"

definition canExecuteTrade :: "TradingState \<Rightarrow> TradeConfig \<Rightarrow> bool" where
  "canExecuteTrade st config =
     (case accountInfo st of
        None \<Rightarrow> False
      | Some a \<Rightarrow>
          (let requiredStake = calculateStakeWithMartingale st config * 2
           in availableBalance a \<ge> requiredStake))"

section \<open>TradingEngine: updateTradeResult\<close>

text \<open>\<open>x || 0\<close> on an optional number.\<close>

definition orZero :: "real option \<Rightarrow> real" where
  "orZero x = (case x of None \<Rightarrow> 0 | Some v \<Rightarrow> v)"

definition settle :: "real \<Rightarrow> bool \<Rightarrow> Trade \<Rightarrow> Trade" where
  "settle p w t = t\<lparr> profit := Some p, trade_status := (if w then T_won else T_lost) \<rparr>"

text \<open>
  The two \<open>if\<close> statements at the head of the loop body: the pair with the matching
  legs settled, and the flag \<open>tradeUpdated\<close>.
\<close>

definition updateLegs :: "string \<Rightarrow> real \<Rightarrow> bool \<Rightarrow> TradePair \<Rightarrow> TradePair \<times> bool" where
  "updateLegs cid p w pair =
     (let (pair1, u1) =
            (if contractId (higherTrade pair) = Some cid
             then (pair\<lparr> higherTrade := settle p w (higherTrade pair) \<rparr>, True)
             else (pair, False));
          (pair2, u2) =
            (if contractId (lowerTrade pair1) = Some cid
             then (pair1\<lparr> lowerTrade := settle p w (lowerTrade pair1) \<rparr>, True)
             else (pair1, u1))
      in (pair2, u2))"

definition bothCompleted :: "TradePair \<Rightarrow> bool" where
  "bothCompleted pair =
     (trade_status (higherTrade pair) \<noteq> T_active \<and> trade_status (lowerTrade pair) \<noteq> T_active)"

definition combinedProfit :: "TradePair \<Rightarrow> real" where
  "combinedProfit pair = orZero (profit (higherTrade pair)) + orZero (profit (lowerTrade pair))"

text \<open>The branch \<open>if (bothCompleted)\<close>: the pair is closed and the session totals move.\<close>

definition completePair :: "TradePair \<Rightarrow> TradingState \<Rightarrow> TradePair \<times> TradingState" where
  "completePair pair st =
     (let tp = combinedProfit pair;
          pair' = pair\<lparr> pair_status := P_completed, pair_totalProfit := Some tp \<rparr>;
          st' = (if tp > 0
                 then st\<lparr> totalProfit := totalProfit st + tp, consecutiveLosses := 0 \<rparr>
                 else st\<lparr> totalLoss := totalLoss st + \<bar>tp\<bar>,
                          consecutiveLosses := consecutiveLosses st + 1 \<rparr>)
      in (pair', st'))"

text \<open>
  The \<open>for\<close> loop over the history, leaving at the first pair one of whose legs carries
  the contract identifier. It returns the history as mutated and the state with its
  totals.
\<close>

fun updateLoop ::
  "string \<Rightarrow> real \<Rightarrow> bool \<Rightarrow> TradePair list \<Rightarrow> TradingState \<Rightarrow> TradePair list \<times> TradingState" where
  "updateLoop cid p w [] st = ([], st)"
| "updateLoop cid p w (pair # rest) st =
     (case updateLegs cid p w pair of
        (pair1, True) \<Rightarrow>
          (if bothCompleted pair1
           then (case completePair pair1 st of (pair2, st') \<Rightarrow> (pair2 # rest, st'))
           else (pair1 # rest, st))
      | (pair1, False) \<Rightarrow>
          (case updateLoop cid p w rest st of (rest', st') \<Rightarrow> (pair # rest', st')))"

definition updateTradeResult :: "string \<Rightarrow> real \<Rightarrow> bool \<Rightarrow> TradingState \<Rightarrow> TradingState" where
  "updateTradeResult cid p w st =
     (case updateLoop cid p w (tradeHistory st) st of
        (h, st') \<Rightarrow> st'\<lparr> tradeHistory := h \<rparr>)"

text \<open>A sequence of settlement calls, first call first.\<close>

fun updateAll :: "(string \<times> real \<times> bool) list \<Rightarrow> TradingState \<Rightarrow> TradingState" where
  "updateAll [] st = st"
| "updateAll ((cid, p, w) # calls) st = updateAll calls (updateTradeResult cid p w st)"

text \<open>Whether a call with this contract identifier touches the pair.\<close>

definition hasContract :: "string \<Rightarrow> TradePair \<Rightarrow> bool" where
  "hasContract cid pair =
     (contractId (higherTrade pair) = Some cid \<or> contractId (lowerTrade pair) = Some cid)"

text \<open>
  What holds of a closed pair: both legs have left \<open>active\<close> and the recorded profit
  is the sum of the legs' profit.
\<close>

definition pairClosedOk :: "TradePair \<Rightarrow> bool" where
  "pairClosedOk pair =
     (pair_status pair = P_completed \<longrightarrow>
        bothCompleted pair \<and> pair_totalProfit pair = Some (combinedProfit pair))"

section \<open>TradingEngine: executeTradePair\<close>

text \<open>
  The requests and replies of the venue (types/api.ts), with the fields the engine
  writes and reads.
\<close>

record ProposalRequest =
  pr_proposal :: real
  pr_amount :: real
  pr_basis :: string
  pr_contract_type :: string
  pr_currency :: string
  pr_duration :: real
  pr_duration_unit :: string
  pr_symbol :: string
  pr_barrier :: string

record BuyParameters =
  bp_contract_type :: string
  bp_currency :: string
  bp_symbol :: string
  bp_amount :: real
  bp_duration :: real
  bp_duration_unit :: string
  bp_basis :: string
  bp_barrier :: string

record BuyContractRequest =
  buy :: real
  parameters :: BuyParameters

record ProposalResponse =
  proposal_id :: string

record BuyContractResponse =
  contract_id :: real
  buy_payout :: real

text \<open>
  What the engine calls and does not define: the two venue operations of the protocol
  client, each answering a request with a reply or an error, and the JavaScript
  conversions between numbers and strings.
\<close>

record Env =
  getProposal :: "ProposalRequest \<Rightarrow> error + ProposalResponse"
  buyContract :: "BuyContractRequest \<Rightarrow> error + BuyContractResponse"
  numToString :: "real \<Rightarrow> string"
  parseFloat :: "string \<Rightarrow> real"

definition contractType :: "Trade \<Rightarrow> string" where
  "contractType t = (if trade_type t = higher then ''CALL'' else ''PUT'')"

text \<open>\<open>this.tradingState.accountInfo?.currency || 'USD'\<close>\<close>

definition currencyOrUSD :: "TradingState \<Rightarrow> string" where
  "currencyOrUSD st =
     (case accountInfo st of
        None \<Rightarrow> ''USD''
      | Some a \<Rightarrow> (if currency a = [] then ''USD'' else currency a))"

definition executeSingleTrade ::
  "Env \<Rightarrow> TradingState \<Rightarrow> Trade \<Rightarrow> TradeConfig \<Rightarrow> error + BuyContractResponse" where
  "executeSingleTrade env st t config =
     (case currentMarket st of
        None \<Rightarrow> Inl (Error ''No market selected'')
      | Some m \<Rightarrow>
          (let proposalRequest =
                 \<lparr> pr_proposal = 1, pr_amount = stake t, pr_basis = ''stake'',
                   pr_contract_type = contractType t, pr_currency = currencyOrUSD st,
                   pr_duration = duration config, pr_duration_unit = ''s'',
                   pr_symbol = selectedMarket config,
                   pr_barrier = numToString env (barrier t) \<rparr>
           in case getProposal env proposalRequest of
                Inl e \<Rightarrow> Inl e
              | Inr proposal \<Rightarrow>
                  (let buyRequest =
                         \<lparr> buy = parseFloat env (proposal_id proposal),
                           parameters =
                             \<lparr> bp_contract_type = contractType t,
                               bp_currency = currencyOrUSD st,
                               bp_symbol = selectedMarket config,
                               bp_amount = stake t,
                               bp_duration = duration config,
                               bp_duration_unit = ''s'',
                               bp_basis = ''stake'',
                               bp_barrier = numToString env (barrier t) \<rparr> \<rparr>
                   in buyContract env buyRequest)))"

text \<open>
  The first half of \<open>executeTradePair\<close>, up to the two pending trades: the check that
  a market and an account are present, the identifier made from the clock, the stake
  and the barriers.
\<close>

record PendingPair =
  pp_id :: string
  pp_timestamp :: nat
  pp_stake :: real
  pp_higher :: Trade
  pp_lower :: Trade

definition preparePair :: "Env \<Rightarrow> nat \<Rightarrow> TradingState \<Rightarrow> TradeConfig \<Rightarrow> error + PendingPair" where
  "preparePair env now st config =
     (if currentMarket st = None \<or> accountInfo st = None
      then Inl (Error ''Market or account info not available'')
      else
        (let tradePairId = ''pair_'' @ numToString env (of_nat now);
             actualStake = calculateStakeWithMartingale st config;
             (pb, nb) = calculateBarriers st (positiveBarrier config) (negativeBarrier config);
             higherTrade0 =
               \<lparr> trade_id = tradePairId @ ''_higher'', trade_timestamp = now,
                 trade_type = higher, stake = actualStake, barrier = pb,
                 market = selectedMarket config, trade_status = T_pending,
                 payout = None, profit = None, contractId = None \<rparr>;
             lowerTrade0 =
               \<lparr> trade_id = tradePairId @ ''_lower'', trade_timestamp = now,
                 trade_type = lower, stake = actualStake, barrier = nb,
                 market = selectedMarket config, trade_status = T_pending,
                 payout = None, profit = None, contractId = None \<rparr>
         in Inr \<lparr> pp_id = tradePairId, pp_timestamp = now, pp_stake = actualStake,
                  pp_higher = higherTrade0, pp_lower = lowerTrade0 \<rparr>))"

text \<open>
  The second half, once both legs are bought: the legs become \<open>active\<close>, the pair is
  built and put at the head of the history.
\<close>

definition recordPair ::
  "Env \<Rightarrow> PendingPair \<Rightarrow> BuyContractResponse \<Rightarrow> BuyContractResponse \<Rightarrow> TradingState
     \<Rightarrow> TradePair \<times> TradingState" where
  "recordPair env pp higherResult lowerResult st =
     (let higherTrade1 = (pp_higher pp)
            \<lparr> contractId := Some (numToString env (contract_id higherResult)),
              payout := Some (buy_payout higherResult),
              trade_status := T_active \<rparr>;
          lowerTrade1 = (pp_lower pp)
            \<lparr> contractId := Some (numToString env (contract_id lowerResult)),
              payout := Some (buy_payout lowerResult),
              trade_status := T_active \<rparr>;
          tradePair =
            \<lparr> pair_id = pp_id pp, pair_timestamp = pp_timestamp pp,
              higherTrade = higherTrade1, lowerTrade = lowerTrade1,
              totalStake = pp_stake pp * 2, pair_totalProfit = None,
              pair_status = P_active \<rparr>
      in (tradePair, st\<lparr> tradeHistory := tradePair # tradeHistory st \<rparr>))"

text \<open>
  \<open>Promise.all\<close> over the two legs: both results, or the error of the leg that failed;
  when both fail, the error of the one that failed first, which the flag tells.
\<close>

definition promiseAll2 :: "bool \<Rightarrow> error + 'a \<Rightarrow> error + 'b \<Rightarrow> error + ('a \<times> 'b)" where
  "promiseAll2 secondFailsFirst a b =
     (case (a, b) of
        (Inr x, Inr y) \<Rightarrow> Inr (x, y)
      | (Inl e, Inr y) \<Rightarrow> Inl e
      | (Inr x, Inl e) \<Rightarrow> Inl e
      | (Inl e1, Inl e2) \<Rightarrow> Inl (if secondFailsFirst then e2 else e1))"

text \<open>
  \<open>executeTradePair\<close>: the result, an error where the source throws, and the state as
  the call leaves it.
\<close>

definition executeTradePair ::
  "Env \<Rightarrow> bool \<Rightarrow> nat \<Rightarrow> TradingState \<Rightarrow> TradeConfig \<Rightarrow> (error + TradePair) \<times> TradingState" where
  "executeTradePair env lowerFailsFirst now st config =
     (case preparePair env now st config of
        Inl e \<Rightarrow> (Inl e, st)
      | Inr pp \<Rightarrow>
          (case promiseAll2 lowerFailsFirst
                  (executeSingleTrade env st (pp_higher pp) config)
                  (executeSingleTrade env st (pp_lower pp) config) of
             Inl e \<Rightarrow> (Inl e, st)
           | Inr (higherResult, lowerResult) \<Rightarrow>
               (case recordPair env pp higherResult lowerResult st of
                  (tradePair, st') \<Rightarrow> (Inr tradePair, st'))))"

text \<open>
  Whether a leg of the pair this call would place fails, in its quote or in its buy.
\<close>

definition legFails :: "Env \<Rightarrow> nat \<Rightarrow> TradingState \<Rightarrow> TradeConfig \<Rightarrow> bool" where
  "legFails env now st config =
     (case preparePair env now st config of
        Inl e \<Rightarrow> False
      | Inr pp \<Rightarrow>
          isl (executeSingleTrade env st (pp_higher pp) config) \<or>
          isl (executeSingleTrade env st (pp_lower pp) config))"

section \<open>TradingEngine: the auto-trading loop\<close>

text \<open>
  The two requests \<open>executeSingleTrade\<close> builds for a leg: the quote request before
  its \<open>await\<close>, and the buy request after it, from the quote that arrived.
\<close>

definition proposalRequestOf :: "Env \<Rightarrow> TradingState \<Rightarrow> Trade \<Rightarrow> TradeConfig \<Rightarrow> ProposalRequest" where
  "proposalRequestOf env st t config =
     \<lparr> pr_proposal = 1, pr_amount = stake t, pr_basis = ''stake'',
       pr_contract_type = contractType t, pr_currency = currencyOrUSD st,
       pr_duration = duration config, pr_duration_unit = ''s'',
       pr_symbol = selectedMarket config,
       pr_barrier = numToString env (barrier t) \<rparr>"

definition buyRequestOf ::
  "Env \<Rightarrow> TradingState \<Rightarrow> Trade \<Rightarrow> TradeConfig \<Rightarrow> ProposalResponse \<Rightarrow> BuyContractRequest" where
  "buyRequestOf env st t config proposal =
     \<lparr> buy = parseFloat env (proposal_id proposal),
       parameters =
         \<lparr> bp_contract_type = contractType t,
           bp_currency = currencyOrUSD st,
           bp_symbol = selectedMarket config,
           bp_amount = stake t,
           bp_duration = duration config,
           bp_duration_unit = ''s'',
           bp_basis = ''stake'',
           bp_barrier = numToString env (barrier t) \<rparr> \<rparr>"

text \<open>
  A call of \<open>executeTradePair\<close> by the loop, from its two quote requests on. Each leg
  waits for its quote, then for its buy, and ends bought or failed; \<open>ex_rejected\<close> tells
  whether \<open>Promise.all\<close> has already rejected, which it does at the first leg that
  fails, while the other leg runs on.
\<close>

datatype LegState = AwaitQuote | AwaitBuy | Bought BuyContractResponse | LegFailed error

record Execution =
  ex_config :: TradeConfig
  ex_pair :: PendingPair
  ex_higher :: LegState
  ex_lower :: LegState
  ex_rejected :: bool

definition legOf :: "TradeType \<Rightarrow> Execution \<Rightarrow> LegState" where
  "legOf side ex = (if side = higher then ex_higher ex else ex_lower ex)"

definition setLeg :: "TradeType \<Rightarrow> LegState \<Rightarrow> Execution \<Rightarrow> Execution" where
  "setLeg side s ex = (if side = higher then ex\<lparr> ex_higher := s \<rparr> else ex\<lparr> ex_lower := s \<rparr>)"

definition tradeOf :: "TradeType \<Rightarrow> PendingPair \<Rightarrow> Trade" where
  "tradeOf side pp = (if side = higher then pp_higher pp else pp_lower pp)"

fun bothBought :: "LegState \<Rightarrow> LegState \<Rightarrow> (BuyContractResponse \<times> BuyContractResponse) option" where
  "bothBought (Bought h) (Bought l) = Some (h, l)"
| "bothBought a b = None"

text \<open>The calls the loop makes on the protocol client.\<close>

datatype VenueCall = ProposalCall ProposalRequest | BuyCall BuyContractRequest

fun isProposalCall :: "VenueCall \<Rightarrow> bool" where
  "isProposalCall (ProposalCall r) = True"
| "isProposalCall (BuyCall b) = False"

fun isBuyCall :: "VenueCall \<Rightarrow> bool" where
  "isBuyCall (ProposalCall r) = False"
| "isBuyCall (BuyCall b) = True"

text \<open>
  The engine with the host's timers and the executions of its loop. A timer is a
  handle, the configuration its callback \<open>executeNextTrade\<close> closes over, and its delay
  in milliseconds. \<open>executions\<close> lists the calls of \<open>executeTradePair\<close> the loop has made,
  oldest first, each with the state of its legs; \<open>venueCalls\<close> lists the quote and buy
  requests these have handed to the protocol client, oldest first.
\<close>

record Engine =
  tradingState :: TradingState
  tradeTimeout :: "nat option"
  timers :: "(nat \<times> TradeConfig \<times> real) list"
  nextHandle :: nat
  executions :: "Execution list"
  venueCalls :: "VenueCall list"

definition clearTimeout :: "nat \<Rightarrow> (nat \<times> TradeConfig \<times> real) list \<Rightarrow> (nat \<times> TradeConfig \<times> real) list" where
  "clearTimeout h ts = filter (\<lambda>t. fst t \<noteq> h) ts"

definition stopAutoTrading :: "Engine \<Rightarrow> Engine" where
  "stopAutoTrading eng =
     (let eng1 = eng\<lparr> tradingState := (tradingState eng)\<lparr> isTrading := False \<rparr> \<rparr>
      in case tradeTimeout eng1 of
           None \<Rightarrow> eng1
         | Some h \<Rightarrow> eng1\<lparr> timers := clearTimeout h (timers eng1), tradeTimeout := None \<rparr>)"

text \<open>
  \<open>executeNextTrade\<close> up to its \<open>await\<close>: it returns at once when trading is off, stops
  the loop when the stake cannot be afforded or \<open>executeTradePair\<close> throws at its
  check, and otherwise \<open>executeTradePair\<close> builds the pending pair and each leg hands
  its quote request to the protocol client and waits.
\<close>

definition executeNextTrade :: "Env \<Rightarrow> nat \<Rightarrow> TradeConfig \<Rightarrow> Engine \<Rightarrow> Engine" where
  "executeNextTrade env now config eng =
     (if \<not> isTrading (tradingState eng) then eng
      else if \<not> canExecuteTrade (tradingState eng) config then stopAutoTrading eng
      else (case preparePair env now (tradingState eng) config of
              Inl e \<Rightarrow> stopAutoTrading eng
            | Inr pp \<Rightarrow>
                eng\<lparr> executions := executions eng @
                         [\<lparr> ex_config = config, ex_pair = pp, ex_higher = AwaitQuote,
                            ex_lower = AwaitQuote, ex_rejected = False \<rparr>],
                     venueCalls := venueCalls eng @
                         [ProposalCall (proposalRequestOf env (tradingState eng) (pp_higher pp) config),
                          ProposalCall (proposalRequestOf env (tradingState eng) (pp_lower pp) config)] \<rparr>))"

text \<open>
  A leg of execution \<open>i\<close> fails: \<open>Promise.all\<close> rejects unless it has already, the error
  passes through \<open>executeTradePair\<close> to the \<open>catch\<close> of \<open>executeNextTrade\<close>, and the loop
  is stopped.
\<close>

definition legRejects :: "nat \<Rightarrow> TradeType \<Rightarrow> error \<Rightarrow> Engine \<Rightarrow> Engine" where
  "legRejects i side e eng =
     (let ex = setLeg side (LegFailed e) (executions eng ! i)
      in if ex_rejected ex
         then eng\<lparr> executions := (executions eng)[i := ex] \<rparr>
         else stopAutoTrading
                (eng\<lparr> executions := (executions eng)[i := ex\<lparr> ex_rejected := True \<rparr>] \<rparr>))"

text \<open>
  The reply to the quote request of a leg arrives: on an error the leg fails; on a
  quote \<open>executeSingleTrade\<close> goes on past its \<open>await\<close> and hands the buy request to the
  protocol client. Nothing on this path looks at \<open>isTrading\<close>.
\<close>

definition quoteArrives ::
  "Env \<Rightarrow> nat \<Rightarrow> TradeType \<Rightarrow> error + ProposalResponse \<Rightarrow> Engine \<Rightarrow> Engine" where
  "quoteArrives env i side reply eng =
     (if i < length (executions eng) \<and> legOf side (executions eng ! i) = AwaitQuote
      then
        (let ex = executions eng ! i
         in case reply of
              Inl e \<Rightarrow> legRejects i side e eng
            | Inr proposal \<Rightarrow>
                eng\<lparr> executions := (executions eng)[i := setLeg side AwaitBuy ex],
                     venueCalls := venueCalls eng @
                       [BuyCall (buyRequestOf env (tradingState eng) (tradeOf side (ex_pair ex))
                                   (ex_config ex) proposal)] \<rparr>)
      else eng)"

text \<open>
  Both legs are bought: \<open>Promise.all\<close> resolves, \<open>executeTradePair\<close> records the pair at
  the head of the history, and \<open>executeNextTrade\<close> sets the timer of the next
  iteration. Nothing on this path looks at \<open>isTrading\<close> either.
\<close>

definition executionResolves ::
  "Env \<Rightarrow> Execution \<Rightarrow> BuyContractResponse \<Rightarrow> BuyContractResponse \<Rightarrow> Engine \<Rightarrow> Engine" where
  "executionResolves env ex higherResult lowerResult eng =
     (let st' = snd (recordPair env (ex_pair ex) higherResult lowerResult (tradingState eng));
          waitTime = max (duration (ex_config ex) * 1000) 10000;
          h = nextHandle eng
      in eng\<lparr> tradingState := st',
               tradeTimeout := Some h,
               timers := timers eng @ [(h, ex_config ex, waitTime)],
               nextHandle := Suc h \<rparr>)"

text \<open>The reply to the buy request of a leg arrives.\<close>

definition buyArrives ::
  "Env \<Rightarrow> nat \<Rightarrow> TradeType \<Rightarrow> error + BuyContractResponse \<Rightarrow> Engine \<Rightarrow> Engine" where
  "buyArrives env i side reply eng =
     (if i < length (executions eng) \<and> legOf side (executions eng ! i) = AwaitBuy
      then
        (case reply of
           Inl e \<Rightarrow> legRejects i side e eng
         | Inr r \<Rightarrow>
             (let ex = setLeg side (Bought r) (executions eng ! i);
                  eng1 = eng\<lparr> executions := (executions eng)[i := ex] \<rparr>
              in case bothBought (ex_higher ex) (ex_lower ex) of
                   None \<Rightarrow> eng1
                 | Some (higherResult, lowerResult) \<Rightarrow>
                     executionResolves env ex higherResult lowerResult eng1))
      else eng)"

definition timerFires :: "Env \<Rightarrow> nat \<Rightarrow> nat \<Rightarrow> Engine \<Rightarrow> Engine" where
  "timerFires env h now eng =
     (case find (\<lambda>t. fst t = h) (timers eng) of
        None \<Rightarrow> eng
      | Some (h', config, delay) \<Rightarrow>
          executeNextTrade env now config (eng\<lparr> timers := clearTimeout h (timers eng) \<rparr>))"

definition startAutoTrading :: "Env \<Rightarrow> nat \<Rightarrow> TradeConfig \<Rightarrow> Engine \<Rightarrow> error + Engine" where
  "startAutoTrading env now config eng =
     (if isTrading (tradingState eng) then Inl (Error ''Trading is already active'')
      else Inr (executeNextTrade env now config
                  (eng\<lparr> tradingState := (tradingState eng)\<lparr> isTrading := True \<rparr> \<rparr>)))"

text \<open>
  What can happen to the engine, one event at a time, as the host runs one callback
  to its next suspension before it starts another.
\<close>

datatype Event =
    StartAutoTrading nat TradeConfig
  | StopAutoTrading
  | TimerFires nat nat
  | QuoteArrives nat TradeType "error + ProposalResponse"
  | BuyArrives nat TradeType "error + BuyContractResponse"
  | UpdateTradeResult string real bool
  | BalanceUpdate real

definition balanceUpdate :: "real \<Rightarrow> TradingState \<Rightarrow> TradingState" where
  "balanceUpdate b st =
     (case accountInfo st of
        None \<Rightarrow> st
      | Some a \<Rightarrow> st\<lparr> accountInfo :=
                        Some (a\<lparr> balance := b, availableBalance := b - lockedBalance a \<rparr>) \<rparr>)"

fun step :: "Env \<Rightarrow> Event \<Rightarrow> Engine \<Rightarrow> Engine" where
  "step env (StartAutoTrading now config) eng =
     (case startAutoTrading env now config eng of Inl e \<Rightarrow> eng | Inr eng' \<Rightarrow> eng')"
| "step env StopAutoTrading eng = stopAutoTrading eng"
| "step env (TimerFires h now) eng = timerFires env h now eng"
| "step env (QuoteArrives i side reply) eng = quoteArrives env i side reply eng"
| "step env (BuyArrives i side reply) eng = buyArrives env i side reply eng"
| "step env (UpdateTradeResult cid p w) eng =
     eng\<lparr> tradingState := updateTradeResult cid p w (tradingState eng) \<rparr>"
| "step env (BalanceUpdate b) eng =
     eng\<lparr> tradingState := balanceUpdate b (tradingState eng) \<rparr>"

fun run :: "Env \<Rightarrow> Event list \<Rightarrow> Engine \<Rightarrow> Engine" where
  "run env [] eng = eng"
| "run env (ev # evs) eng = run env evs (step env ev eng)"

fun isStart :: "Event \<Rightarrow> bool" where
  "isStart (StartAutoTrading now config) = True"
| "isStart ev = False"

text \<open>
  What an execution may still do: the buy requests it may still send, one for each
  leg that waits for its quote, and the pair it may still record, as long as no leg
  has failed and not both are bought.
\<close>

fun isFailed :: "LegState \<Rightarrow> bool" where
  "isFailed (LegFailed e) = True"
| "isFailed s = False"

definition buysToCome :: "Execution \<Rightarrow> nat" where
  "buysToCome ex =
     (if ex_higher ex = AwaitQuote then 1 else 0) + (if ex_lower ex = AwaitQuote then 1 else 0)"

definition pairToCome :: "Execution \<Rightarrow> nat" where
  "pairToCome ex =
     (if isFailed (ex_higher ex) \<or> isFailed (ex_lower ex) then 0
      else if bothBought (ex_higher ex) (ex_lower ex) = None then 1
      else 0)"

definition proposalCalls :: "Engine \<Rightarrow> VenueCall list" where
  "proposalCalls eng = filter isProposalCall (venueCalls eng)"

definition buyCalls :: "Engine \<Rightarrow> VenueCall list" where
  "buyCalls eng = filter isBuyCall (venueCalls eng)"

definition buysAhead :: "Engine \<Rightarrow> nat" where
  "buysAhead eng = sum_list (map buysToCome (executions eng))"

definition pairsAhead :: "Engine \<Rightarrow> nat" where
  "pairsAhead eng = sum_list (map pairToCome (executions eng))"

text \<open>
  How the engine may differ after events that start nothing: trading is off, no
  quote request and no execution is added, and buy requests and recorded pairs are
  added only as far as executions had them to come.
\<close>

definition quiet :: "Engine \<Rightarrow> Engine \<Rightarrow> bool" where
  "quiet eng eng' =
     (\<not> isTrading (tradingState eng') \<and>
      proposalCalls eng' = proposalCalls eng \<and>
      length (executions eng') = length (executions eng) \<and>
      length (buyCalls eng') + buysAhead eng' \<le> length (buyCalls eng) + buysAhead eng \<and>
      length (tradeHistory (tradingState eng')) + pairsAhead eng'
        \<le> length (tradeHistory (tradingState eng)) + pairsAhead eng)"

section \<open>DerivAPI: the protocol client\<close>

text \<open>
  A message from the venue, with the fields \<open>handleMessage\<close> and the callbacks read:
  the kind, the correlation identifier when there is one, and the error payload when
  there is one, with its message when it has one.
\<close>

record Message =
  msg_type :: string
  req_id :: "nat option"
  msg_error :: "string option option"

datatype Outcome = Resolved Message | Rejected string

text \<open>
  The client and what it has done so far. \<open>callbacks\<close> and \<open>subscriptions\<close> are the keys
  of the two maps; the callback stored under a request identifier settles the promise
  of that call, and \<open>promises\<close> lists the calls whose promise is settled, each with
  its outcome, in the order they were settled.
  \<open>delivered\<close> lists the messages handed to subscription handlers, \<open>wire\<close> the request
  identifiers written to the socket, \<open>scheduled\<close> the delays in milliseconds of the
  reconnections set up, and \<open>consoleErrors\<close> what was logged as an error.
\<close>

record DerivAPI =
  wsOpen :: bool
  requestId :: nat
  callbacks :: "nat set"
  subscriptions :: "string set"
  reconnectAttempts :: nat
  maxReconnectAttempts :: nat
  reconnectTimeout :: "nat option"
  promises :: "(nat \<times> Outcome) list"
  delivered :: "(string \<times> Message) list"
  wire :: "nat list"
  scheduled :: "nat list"
  consoleErrors :: "string list"

definition newDerivAPI :: DerivAPI where
  "newDerivAPI =
     \<lparr> wsOpen = False, requestId = 1, callbacks = {}, subscriptions = {},
       reconnectAttempts = 0, maxReconnectAttempts = 5, reconnectTimeout = None,
       promises = [], delivered = [], wire = [], scheduled = [],
       consoleErrors = [] \<rparr>"

text \<open>How the promise of call \<open>r\<close> was settled, if it was.\<close>

definition promiseOf :: "DerivAPI \<Rightarrow> nat \<Rightarrow> Outcome option" where
  "promiseOf api r = map_of (promises api) r"






definition handleReconnection :: "DerivAPI \<Rightarrow> DerivAPI" where
  "handleReconnection api =
     (if reconnectAttempts api < maxReconnectAttempts api
      then
        (let attempts = reconnectAttempts api + 1;
             delay = 2 ^ attempts * 1000
         in api\<lparr> reconnectAttempts := attempts,
                  scheduled := scheduled api @ [delay],
                  reconnectTimeout := Some delay \<rparr>)
      else api\<lparr> consoleErrors := consoleErrors api @ [''Max reconnection attempts reached''] \<rparr>)"

text \<open>The socket's handlers as \<open>connect\<close> installs them.\<close>

definition onopen :: "DerivAPI \<Rightarrow> DerivAPI" where
  "onopen api = api\<lparr> reconnectAttempts := 0, wsOpen := True \<rparr>"

definition onclose :: "DerivAPI \<Rightarrow> DerivAPI" where
  "onclose api = handleReconnection (api\<lparr> wsOpen := False \<rparr>)"









text \<open>
  The state of a client that has only assigned identifiers below \<open>requestId\<close>: every
  pending call has such an identifier and an unsettled promise, and no promise of an
  identifier not yet assigned is settled.
\<close>

definition wellFormed :: "DerivAPI \<Rightarrow> bool" where
  "wellFormed api =
     ((\<forall>r \<in> callbacks api. r < requestId api \<and> promiseOf api r = None) \<and>
      (\<forall>r \<in> fst ` set (promises api). r < requestId api))"

text \<open>\<open>n\<close> closes in a row, each the failure of the attempt before it.\<close>

fun closes :: "nat \<Rightarrow> DerivAPI \<Rightarrow> DerivAPI" where
  "closes 0 api = api"
| "closes (Suc n) api = closes n (onclose api)"

text \<open>
  How a pair of the history may differ after settlement calls: it keeps its identity,
  it stays closed once it is closed, and it keeps what holds of a closed pair.
\<close>

definition evolves :: "TradePair \<Rightarrow> TradePair \<Rightarrow> bool" where
  "evolves q q' =
     (pair_id q' = pair_id q \<and>
      (pair_status q = P_completed \<longrightarrow> pair_status q' = P_completed) \<and>
      (pairClosedOk q \<longrightarrow> pairClosedOk q'))"

section \<open>Sample values\<close>

definition acct :: "real \<Rightarrow> AccountInfo" where
  "acct a = \<lparr> balance = a, currency = ''USD'', loginId = ''CR1'',
               availableBalance = a, lockedBalance = 0 \<rparr>"

definition strN :: "real \<Rightarrow> string" where
  "strN x = ''n''"

definition leg :: "TradeType \<Rightarrow> string \<Rightarrow> TradeStatus \<Rightarrow> real option \<Rightarrow> Trade" where
  "leg ty cid s pr =
     \<lparr> trade_id = ''pair_1'', trade_timestamp = 1, trade_type = ty, stake = 1,
       barrier = (if ty = higher then 1 else - 1), market = ''R_10'', trade_status = s,
       payout = Some 2, profit = pr, contractId = Some cid \<rparr>"

definition pairOf :: "Trade \<Rightarrow> Trade \<Rightarrow> TradePair" where
  "pairOf h l =
     \<lparr> pair_id = ''pair_1'', pair_timestamp = 1, higherTrade = h, lowerTrade = l,
       totalStake = 2, pair_totalProfit = None, pair_status = P_active \<rparr>"

definition marketR10 :: MarketData where
  "marketR10 =
     \<lparr> symbol = ''R_10'', name = ''Volatility 10 Index'', pip = 1 / 100, currentPrice = 0,
       minBarrier = 1 / 10, maxBarrier = 10, minStake = 35 / 100, maxStake = 2000 \<rparr>"

definition session :: "TradePair list \<Rightarrow> nat \<Rightarrow> TradingState" where
  "session h n =
     \<lparr> isConnected = True, isTrading = False, accountInfo = Some (acct 100),
       currentMarket = Some marketR10, tradeHistory = h, totalProfit = 0, totalLoss = 0,
       consecutiveLosses = n \<rparr>"

text \<open>
  A session after two losing pairs whose only open pair has its higher leg won with
  profit 1 and its lower leg, contract 102, still active; and a session whose only
  pair has both legs active, contracts 101 and 102.
\<close>

definition halfPair :: TradePair where
  "halfPair = pairOf (leg higher ''101'' T_won (Some 1)) (leg lower ''102'' T_active None)"

definition halfSettled :: TradingState where
  "halfSettled = session [halfPair] 2"

definition bothActive :: TradingState where
  "bothActive =
     session [pairOf (leg higher ''101'' T_active None) (leg lower ''102'' T_active None)] 0"

text \<open>The second session once contract 101 has won 1 and contract 102 has lost 3.\<close>

definition bothSettled :: TradingState where
  "bothSettled = updateAll [(''101'', 1, True), (''102'', - 3, False)] bothActive"

definition sampleConfig :: TradeConfig where
  "sampleConfig =
     \<lparr> cfg_stake = 1, martingaleMultiplier = 2, duration = 5, positiveBarrier = 1,
       negativeBarrier = 1, selectedMarket = ''R_10'', riskPercentage = 10,
       cfg_lockedBalance = 0 \<rparr>"

text \<open>A venue that quotes every contract, sells the CALL and refuses the PUT.\<close>

definition refusingPut :: Env where
  "refusingPut =
     \<lparr> getProposal = (\<lambda>r. Inr \<lparr> proposal_id = ''7'' \<rparr>),
       buyContract = (\<lambda>b. if bp_contract_type (parameters b) = ''PUT''
                           then Inl (Error ''InsufficientBalance'')
                           else Inr \<lparr> contract_id = 101, buy_payout = 2 \<rparr>),
       numToString = strN,
       parseFloat = (\<lambda>s. 7) \<rparr>"

text \<open>
  An engine in the middle of auto-trading that has a timer of the loop pending and,
  from an earlier start, an execution in flight that waits for both its quotes; a
  quote, and the replies to the two buys.
\<close>

definition samplePending :: PendingPair where
  "samplePending = projr (preparePair refusingPut 1 (session [] 0) sampleConfig)"

definition sampleExecution :: Execution where
  "sampleExecution =
     \<lparr> ex_config = sampleConfig, ex_pair = samplePending, ex_higher = AwaitQuote,
       ex_lower = AwaitQuote, ex_rejected = False \<rparr>"

definition busyEngine :: Engine where
  "busyEngine =
     \<lparr> tradingState = (session [] 0)\<lparr> isTrading := True \<rparr>,
       tradeTimeout = Some 1,
       timers = [(1, sampleConfig, 10000)],
       nextHandle = 2,
       executions = [sampleExecution],
       venueCalls =
         [ProposalCall (proposalRequestOf refusingPut (session [] 0)
                          (pp_higher samplePending) sampleConfig),
          ProposalCall (proposalRequestOf refusingPut (session [] 0)
                          (pp_lower samplePending) sampleConfig)] \<rparr>"

definition quote :: ProposalResponse where
  "quote = \<lparr> proposal_id = ''7'' \<rparr>"

definition boughtHigher :: BuyContractResponse where
  "boughtHigher = \<lparr> contract_id = 101, buy_payout = 2 \<rparr>"

definition boughtLower :: BuyContractResponse where
  "boughtLower = \<lparr> contract_id = 102, buy_payout = 2 \<rparr>"

text \<open>
  What the venue sends for the execution in flight: both quotes, then both buys.
\<close>

definition venueAnswers :: "Event list" where
  "venueAnswers =
     [QuoteArrives 0 higher (Inr quote), QuoteArrives 0 lower (Inr quote),
      BuyArrives 0 higher (Inr boughtHigher), BuyArrives 0 lower (Inr boughtLower)]"

text \<open>
  A client whose socket has just opened, a reply to its second call, and a reply to
  its first call.
\<close>

definition openClient :: DerivAPI where
  "openClient = onopen newDerivAPI"



section \<open>Martingale stake\<close>

text \<open>
  C5. \<open>calculateMartingaleStake(base, consecutiveLosses, multiplier)\<close> is \<open>base\<close> when
  the loss count is zero and \<open>min(base * multiplier^consecutiveLosses, base * 10)\<close>
  for every other count.
\<close>

theorem calculateMartingaleStake_formula:
  "calculateMartingaleStake base 0 m = base \<and>
   calculateMartingaleStake base (Suc n) m = min (base * m ^ Suc n) (base * 10)"
  by (simp add: calculateMartingaleStake_def calculateMartingaleStake4_def)

text \<open>
  The engine's own copy of the rule, \<open>calculateStakeWithMartingale\<close>, gives the same
  stake for a base stake that is not negative.
\<close>

lemma calculateStakeWithMartingale_eq:
  assumes "0 \<le> cfg_stake config"
  shows "calculateStakeWithMartingale st config =
         calculateMartingaleStake (cfg_stake config) (consecutiveLosses st)
           (martingaleMultiplier config)"
  using assms
  by (simp add: calculateStakeWithMartingale_def calculateMartingaleStake_def
      calculateMartingaleStake4_def Let_def)

lemma stake_step:
  assumes "1 \<le> m" "0 < base"
  shows "calculateMartingaleStake base n m \<le> calculateMartingaleStake base (Suc n) m"
proof (cases n)
  case 0
  have "base * 1 \<le> base * m" using assms by (intro mult_left_mono) auto
  then show ?thesis using 0 assms
    by (simp add: calculateMartingaleStake_def calculateMartingaleStake4_def)
next
  case (Suc k)
  have "m ^ n \<le> m ^ Suc n" using assms by (intro power_increasing) auto
  then have "base * m ^ n \<le> base * m ^ Suc n" using assms by (intro mult_left_mono) auto
  then show ?thesis using Suc
    by (simp add: calculateMartingaleStake_def calculateMartingaleStake4_def min_le_iff_disj)
qed

lemma stake_cap: "0 < base \<Longrightarrow> calculateMartingaleStake base n m \<le> 10 * base"
  by (simp add: calculateMartingaleStake_def calculateMartingaleStake4_def min_le_iff_disj)

text \<open>
  C4, as the claim states it, fails: with a multiplier below 1 the stake after one loss
  is smaller than the stake after none. Base stake 1, multiplier 1/2: the stake is 1
  at no loss and 1/2 at one loss.
\<close>

theorem martingale_monotone_counterexample:
  "(0::real) < 1 \<and> (0::nat) \<le> 1 \<and>
   \<not> (calculateMartingaleStake 1 0 (1 / 2) \<le> calculateMartingaleStake 1 1 (1 / 2))"
  by (simp add: calculateMartingaleStake_def calculateMartingaleStake4_def)

text \<open>
  C4, amended. For a base stake above 0 the stake never exceeds ten times the base
  stake, whatever the multiplier and the loss count; and for a multiplier of at least 1
  it does not decrease as the loss count grows.
\<close>

theorem martingale_capped_and_monotone:
  assumes "0 < base"
  shows "calculateMartingaleStake base n m \<le> 10 * base \<and>
         (1 \<le> m \<longrightarrow> n \<le> n' \<longrightarrow>
            calculateMartingaleStake base n m \<le> calculateMartingaleStake base n' m)"
proof (intro conjI impI)
  show "calculateMartingaleStake base n m \<le> 10 * base" using assms by (rule stake_cap)
next
  assume m: "1 \<le> m" and le: "n \<le> n'"
  show "calculateMartingaleStake base n m \<le> calculateMartingaleStake base n' m"
    using le
    by (rule lift_Suc_mono_le [of "\<lambda>k. calculateMartingaleStake base k m",
          OF stake_step [OF m assms]])
qed

theorem martingale_capped_and_monotone_witness:
  "(0::real) < 1 \<and> calculateMartingaleStake 1 2 2 \<le> 10 * 1 \<and>
   (1::real) \<le> 2 \<and> (2::nat) \<le> 5 \<and>
   calculateMartingaleStake 1 2 2 \<le> calculateMartingaleStake 1 5 2"
  using martingale_capped_and_monotone [of 1 2 2 5] by simp

section \<open>Recommended stake\<close>

lemma finalStake_cases:
  "finalStake acc p m =
     (let a = availableBalance acc; r = calculateMartingaleSequenceRisk 1 m 5;
          hi = min 2000 (a / 4)
      in if r \<noteq> 0 then Fin (max (35 / 100) (min hi (a * p / 100 / (r * 2))))
         else if a * p > 0 then Fin (max (35 / 100) hi)
         else if a * p < 0 then Fin (35 / 100)
         else NaN)"
  by (simp add: finalStake_def js_div_def Let_def zero_less_mult_iff mult_less_0_iff)

lemma sequenceRisk_minus_one: "calculateMartingaleSequenceRisk 1 (- 1) 5 = 0"
  by (simp add: calculateMartingaleSequenceRisk_def eval_nat_numeral)

lemma sequenceRisk_two: "calculateMartingaleSequenceRisk 1 2 5 = 63"
  by (simp add: calculateMartingaleSequenceRisk_def eval_nat_numeral)

lemma sequenceRiskLoop_pos:
  "0 \<le> m \<Longrightarrow> 0 \<le> t \<Longrightarrow> 0 < c \<or> (0 < t \<and> 0 \<le> c) \<Longrightarrow>
   0 < sequenceRiskLoop (Suc k) b m t c"
proof (induction k arbitrary: t c)
  case 0
  then show ?case by (auto simp: Let_def)
next
  case (Suc k)
  have "0 < t + c" using Suc.prems by auto
  moreover have "0 \<le> c * m" using Suc.prems by auto
  ultimately have "0 < sequenceRiskLoop (Suc k) b m (t + c) (c * m)"
    using Suc.IH [of "t + c" "c * m"] Suc.prems(1) by simp
  moreover have "sequenceRiskLoop (Suc (Suc k)) b m t c =
      (if c * m > b * 32 then t + c else sequenceRiskLoop (Suc k) b m (t + c) (c * m))"
    by (subst sequenceRiskLoop.simps(2)) (simp only: Let_def)
  ultimately show ?case using \<open>0 < t + c\<close> by (simp del: sequenceRiskLoop.simps)
qed

lemma sequenceRisk_pos: "0 \<le> m \<Longrightarrow> 0 < calculateMartingaleSequenceRisk 1 m 5"
  unfolding calculateMartingaleSequenceRisk_def by (rule sequenceRiskLoop_pos) auto

lemma clamp_upper: "lo \<le> hi \<Longrightarrow> max lo (min hi x) \<le> (hi::real)"
  by (simp add: max_def min_def)

text \<open>
  Where the quarter of the available balance reaches the minimum stake, from an
  available balance of 1.4 on, and the sequence risk is not zero, the stake before
  rounding lies between 0.35 and \<open>min(2000, available/4)\<close>, and the account can trade.
\<close>

lemma finalStake_in_range:
  assumes "7 / 5 \<le> availableBalance acc" "calculateMartingaleSequenceRisk 1 m 5 \<noteq> 0"
  shows "\<exists>s. finalStake acc p m = Fin s \<and> 35 / 100 \<le> s \<and>
             s \<le> min 2000 (availableBalance acc / 4) \<and>
             canTrade (calculateRecommendedStake toFixed2 acc p m)"
proof -
  let ?a = "availableBalance acc"
  define s where "s = max (35 / 100) (min (min 2000 (?a / 4))
              (?a * p / 100 / (calculateMartingaleSequenceRisk 1 m 5 * 2)))"
  have f: "finalStake acc p m = Fin s"
    using assms(2) unfolding s_def by (simp add: finalStake_cases Let_def)
  have lo: "35 / 100 \<le> s" unfolding s_def by simp
  have q: "35 / 100 \<le> min 2000 (?a / 4)" using assms(1) by simp
  have hi: "s \<le> min 2000 (?a / 4)" unfolding s_def using q by (rule clamp_upper)
  have "s \<le> ?a / 4" using hi by simp
  then have "s * 2 \<le> ?a" using assms(1) by linarith
  then have "canTrade (calculateRecommendedStake toFixed2 acc p m)"
    by (simp add: calculateRecommendedStake_def Let_def f)
  then show ?thesis using f lo hi by blast
qed

text \<open>
  C3. The recommended stake is to lie between 0.35 and
  \<open>min(2000, availableBalance/4)\<close>, and the source says of the upper bound \<open>Never risk
  more than 25% in a single trade\<close>. The code does not keep to it: it applies the
  minimum last, so that for an account with an available balance of 1, risk percentage
  10 and multiplier 2 the stake is the minimum 0.35, above the quarter 0.25 of the
  balance; the value returned is that stake put through \<open>toFixed(2)\<close>, and \<open>canTrade\<close>
  is true.
\<close>

theorem recommendedStake_above_quarter:
  "finalStake (acct 1) 10 2 = Fin (35 / 100) \<and>
   recommendedStake (calculateRecommendedStake toFixed2 (acct 1) 10 2) =
     Fin (toFixed2 (35 / 100)) \<and>
   canTrade (calculateRecommendedStake toFixed2 (acct 1) 10 2) \<and>
   min 2000 (availableBalance (acct 1) / 4) = 1 / 4 \<and>
   \<not> (35 / 100 \<le> min 2000 (availableBalance (acct 1) / 4))"
proof -
  have f: "finalStake (acct 1) 10 2 = Fin (35 / 100)"
    by (simp add: acct_def finalStake_cases Let_def sequenceRisk_two)
  have r: "recommendedStake (calculateRecommendedStake toFixed2 (acct 1) 10 2) =
      Fin (toFixed2 (35 / 100))"
    by (simp add: calculateRecommendedStake_def Let_def f)
  have a: "availableBalance (acct 1) = 1" by (simp add: acct_def)
  have c: "canTrade (calculateRecommendedStake toFixed2 (acct 1) 10 2)"
    by (simp add: calculateRecommendedStake_def Let_def f a)
  have q: "min 2000 (availableBalance (acct 1) / 4) = 1 / 4" by (simp add: a)
  have n: "\<not> (35 / 100 \<le> min 2000 (availableBalance (acct 1) / 4))"
    unfolding q by simp
  show ?thesis using f r c q n by blast
qed

section \<open>Barrier validation\<close>

lemma length_push: "length (push c msg es) = length es + violated c"
  by (simp add: push_def violated_def)

lemma set_push: "set (push c msg es) = (if c then insert msg (set es) else set es)"
  by (simp add: push_def)

text \<open>
  C6. \<open>validateBarriers\<close> reports the barriers valid exactly when its list of violations
  is empty, and exactly when the positive barrier is above 0, the negative barrier is
  below 0 and both magnitudes lie between the minimum and the maximum; each of the six
  checks that fails has its message in the list, and the list has one entry for each.
\<close>

theorem validateBarriers_complete:
  "(isValid (validateBarriers str pos neg lo hi) \<longleftrightarrow>
      errors (validateBarriers str pos neg lo hi) = []) \<and>
   (isValid (validateBarriers str pos neg lo hi) \<longleftrightarrow>
      \<not> (pos \<le> 0 \<or> neg \<ge> 0 \<or> \<bar>pos\<bar> < lo \<or> \<bar>pos\<bar> > hi \<or> \<bar>neg\<bar> < lo \<or> \<bar>neg\<bar> > hi)) \<and>
   (pos \<le> 0 \<longrightarrow>
      ''Positive barrier must be greater than 0''
        \<in> set (errors (validateBarriers str pos neg lo hi))) \<and>
   (neg \<ge> 0 \<longrightarrow>
      ''Negative barrier must be less than 0''
        \<in> set (errors (validateBarriers str pos neg lo hi))) \<and>
   (\<bar>pos\<bar> < lo \<longrightarrow>
      ''Positive barrier must be at least '' @ str lo
        \<in> set (errors (validateBarriers str pos neg lo hi))) \<and>
   (\<bar>pos\<bar> > hi \<longrightarrow>
      ''Positive barrier cannot exceed '' @ str hi
        \<in> set (errors (validateBarriers str pos neg lo hi))) \<and>
   (\<bar>neg\<bar> < lo \<longrightarrow>
      ''Negative barrier magnitude must be at least '' @ str lo
        \<in> set (errors (validateBarriers str pos neg lo hi))) \<and>
   (\<bar>neg\<bar> > hi \<longrightarrow>
      ''Negative barrier magnitude cannot exceed '' @ str hi
        \<in> set (errors (validateBarriers str pos neg lo hi))) \<and>
   length (errors (validateBarriers str pos neg lo hi)) =
     violated (pos \<le> 0) + violated (neg \<ge> 0) +
     violated (\<bar>pos\<bar> < lo) + violated (\<bar>pos\<bar> > hi) +
     violated (\<bar>neg\<bar> < lo) + violated (\<bar>neg\<bar> > hi)"
proof -
  let ?r = "validateBarriers str pos neg lo hi"
  have len: "length (errors ?r) =
      violated (pos \<le> 0) + violated (neg \<ge> 0) +
      violated (\<bar>pos\<bar> < lo) + violated (\<bar>pos\<bar> > hi) +
      violated (\<bar>neg\<bar> < lo) + violated (\<bar>neg\<bar> > hi)"
    unfolding validateBarriers_def Let_def by (simp add: length_push)
  have v: "isValid ?r \<longleftrightarrow> length (errors ?r) = 0"
    unfolding validateBarriers_def Let_def by simp
  have m: "set (errors ?r) =
      (if pos \<le> 0 then {''Positive barrier must be greater than 0''} else {}) \<union>
      (if neg \<ge> 0 then {''Negative barrier must be less than 0''} else {}) \<union>
      (if \<bar>pos\<bar> < lo then {''Positive barrier must be at least '' @ str lo} else {}) \<union>
      (if \<bar>pos\<bar> > hi then {''Positive barrier cannot exceed '' @ str hi} else {}) \<union>
      (if \<bar>neg\<bar> < lo then {''Negative barrier magnitude must be at least '' @ str lo} else {}) \<union>
      (if \<bar>neg\<bar> > hi then {''Negative barrier magnitude cannot exceed '' @ str hi} else {})"
    unfolding validateBarriers_def Let_def by (simp add: set_push)
  have v2: "isValid ?r \<longleftrightarrow>
      \<not> (pos \<le> 0 \<or> neg \<ge> 0 \<or> \<bar>pos\<bar> < lo \<or> \<bar>pos\<bar> > hi \<or> \<bar>neg\<bar> < lo \<or> \<bar>neg\<bar> > hi)"
    unfolding v len by (simp add: violated_def)
  show ?thesis
    apply (intro conjI)
    subgoal using v by simp
    subgoal using v2 .
    subgoal using m by simp
    subgoal using m by simp
    subgoal using m by simp
    subgoal using m by simp
    subgoal using m by simp
    subgoal using m by simp
    subgoal using len .
    done
qed

theorem validateBarriers_complete_witness:
  "(- 1::real) \<le> 0 \<and> (1::real) \<ge> 0 \<and> \<bar>- 1::real\<bar> < 2 \<and> \<bar>- 1::real\<bar> > 1 / 2 \<and>
   \<bar>1::real\<bar> < 2 \<and> \<bar>1::real\<bar> > 1 / 2 \<and>
   \<not> isValid (validateBarriers strN (- 1) 1 2 (1 / 2)) \<and>
   errors (validateBarriers strN (- 1) 1 2 (1 / 2)) \<noteq> [] \<and>
   ''Positive barrier must be greater than 0''
     \<in> set (errors (validateBarriers strN (- 1) 1 2 (1 / 2))) \<and>
   ''Negative barrier must be less than 0''
     \<in> set (errors (validateBarriers strN (- 1) 1 2 (1 / 2))) \<and>
   ''Positive barrier must be at least '' @ strN 2
     \<in> set (errors (validateBarriers strN (- 1) 1 2 (1 / 2))) \<and>
   ''Positive barrier cannot exceed '' @ strN (1 / 2)
     \<in> set (errors (validateBarriers strN (- 1) 1 2 (1 / 2))) \<and>
   ''Negative barrier magnitude must be at least '' @ strN 2
     \<in> set (errors (validateBarriers strN (- 1) 1 2 (1 / 2))) \<and>
   ''Negative barrier magnitude cannot exceed '' @ strN (1 / 2)
     \<in> set (errors (validateBarriers strN (- 1) 1 2 (1 / 2))) \<and>
   length (errors (validateBarriers strN (- 1) 1 2 (1 / 2))) = 6"
proof -
  have h: "(- 1::real) \<le> 0" "(1::real) \<ge> 0" "\<bar>- 1::real\<bar> < 2" "\<bar>- 1::real\<bar> > 1 / 2"
    "\<bar>1::real\<bar> < 2" "\<bar>1::real\<bar> > 1 / 2"
    by simp_all
  have six: "violated True = 1" by (simp add: violated_def)
  note t = validateBarriers_complete [of strN "- 1" 1 2 "1 / 2"]
  have len: "length (errors (validateBarriers strN (- 1) 1 2 (1 / 2))) = 6"
    using t h by (simp only: six)
  show ?thesis using t h len by blast
qed

section \<open>Settlement of trades\<close>

lemmas sample_defs =
  halfSettled_def halfPair_def bothActive_def bothSettled_def session_def pairOf_def
  leg_def acct_def marketR10_def

lemmas settle_defs =
  updateTradeResult_def updateLegs_def settle_def bothCompleted_def combinedProfit_def
  orZero_def completePair_def hasContract_def Let_def

lemma updateLegs_flag: "snd (updateLegs cid p w pair) = hasContract cid pair"
  by (auto simp: updateLegs_def hasContract_def Let_def)

lemma updateLegs_untouched: "\<not> hasContract cid pair \<Longrightarrow> updateLegs cid p w pair = (pair, False)"
  by (auto simp: updateLegs_def hasContract_def Let_def)

lemma updateLegs_id: "pair_id (fst (updateLegs cid p w pair)) = pair_id pair"
  by (auto simp: updateLegs_def Let_def)

lemma updateLegs_status: "pair_status (fst (updateLegs cid p w pair)) = pair_status pair"
  by (auto simp: updateLegs_def Let_def)

lemma updateLegs_bothCompleted:
  "bothCompleted pair \<Longrightarrow> bothCompleted (fst (updateLegs cid p w pair))"
  by (auto simp: updateLegs_def Let_def bothCompleted_def settle_def)

lemma updateLoop_skip:
  assumes "\<forall>q \<in> set pre. \<not> hasContract cid q"
  shows "updateLoop cid p w (pre @ rest) st =
         (pre @ fst (updateLoop cid p w rest st), snd (updateLoop cid p w rest st))"
  using assms
  by (induction pre) (simp_all add: updateLegs_untouched split: prod.splits)

lemma updateLoop_hit:
  assumes "hasContract cid pair" "bothCompleted (fst (updateLegs cid p w pair))"
  shows "updateLoop cid p w (pair # post) st =
         (fst (completePair (fst (updateLegs cid p w pair)) st) # post,
          snd (completePair (fst (updateLegs cid p w pair)) st))"
proof -
  obtain pair1 where u: "updateLegs cid p w pair = (pair1, True)"
    using updateLegs_flag [of cid p w pair] assms(1) by (cases "updateLegs cid p w pair") auto
  show ?thesis using assms(2) by (simp add: u split: prod.splits)
qed

text \<open>
  C1, as the claim states it, fails at a combined profit of zero: the source tests
  \<open>totalProfit > 0\<close>, so zero takes the branch of a loss. A session after two losing
  pairs, whose open pair has its higher leg won with profit 1, receives the loss of
  its lower leg with profit -1: the combined profit is 0, which is not negative, and
  the loss counter goes from 2 to 3 instead of back to 0.
\<close>

theorem zero_profit_counts_as_loss_counterexample:
  "bothCompleted (fst (updateLegs ''102'' (- 1) False halfPair)) \<and>
   0 \<le> combinedProfit (fst (updateLegs ''102'' (- 1) False halfPair)) \<and>
   consecutiveLosses halfSettled = 2 \<and>
   consecutiveLosses (updateTradeResult ''102'' (- 1) False halfSettled) = 3 \<and>
   consecutiveLosses (updateTradeResult ''102'' (- 1) False halfSettled) \<noteq> 0"
  by (simp add: sample_defs settle_defs)

text \<open>
  C1, amended. When a call settles a leg of the first pair of the history that carries
  its contract identifier and both legs of that pair are then terminal: a combined
  profit above zero resets \<open>consecutiveLosses\<close> to zero and adds the combined profit to
  \<open>totalProfit\<close>, leaving \<open>totalLoss\<close>; a combined profit of zero or below adds one to
  \<open>consecutiveLosses\<close> and the magnitude of the combined profit to \<open>totalLoss\<close>, leaving
  \<open>totalProfit\<close>; and the pair is closed with the combined profit recorded.
\<close>

theorem settlement_updates_totals:
  assumes "tradeHistory st = pre @ pair # post"
    and "\<forall>q \<in> set pre. \<not> hasContract cid q"
    and "hasContract cid pair"
    and "bothCompleted (fst (updateLegs cid p w pair))"
  shows "(0 < combinedProfit (fst (updateLegs cid p w pair)) \<longrightarrow>
            consecutiveLosses (updateTradeResult cid p w st) = 0 \<and>
            totalProfit (updateTradeResult cid p w st) =
              totalProfit st + combinedProfit (fst (updateLegs cid p w pair)) \<and>
            totalLoss (updateTradeResult cid p w st) = totalLoss st) \<and>
         (combinedProfit (fst (updateLegs cid p w pair)) \<le> 0 \<longrightarrow>
            consecutiveLosses (updateTradeResult cid p w st) = consecutiveLosses st + 1 \<and>
            totalLoss (updateTradeResult cid p w st) =
              totalLoss st + \<bar>combinedProfit (fst (updateLegs cid p w pair))\<bar> \<and>
            totalProfit (updateTradeResult cid p w st) = totalProfit st) \<and>
         tradeHistory (updateTradeResult cid p w st) =
           pre @ (fst (updateLegs cid p w pair))
                   \<lparr> pair_status := P_completed,
                     pair_totalProfit := Some (combinedProfit (fst (updateLegs cid p w pair))) \<rparr>
               # post"
proof -
  let ?pair1 = "fst (updateLegs cid p w pair)"
  have loop: "updateLoop cid p w (tradeHistory st) st =
      (pre @ fst (completePair ?pair1 st) # post, snd (completePair ?pair1 st))"
    unfolding assms(1) updateLoop_skip [OF assms(2)] updateLoop_hit [OF assms(3,4)] by simp
  have res: "updateTradeResult cid p w st =
      (snd (completePair ?pair1 st))\<lparr> tradeHistory := pre @ fst (completePair ?pair1 st) # post \<rparr>"
    by (simp add: updateTradeResult_def loop)
  show ?thesis unfolding res by (simp add: completePair_def Let_def)
qed

theorem settlement_updates_totals_witness:
  "tradeHistory halfSettled = [] @ halfPair # [] \<and>
   list_all (\<lambda>q. \<not> hasContract ''102'' q) [] \<and>
   hasContract ''102'' halfPair \<and>
   bothCompleted (fst (updateLegs ''102'' (- 1 / 2) False halfPair)) \<and>
   0 < combinedProfit (fst (updateLegs ''102'' (- 1 / 2) False halfPair)) \<and>
   consecutiveLosses (updateTradeResult ''102'' (- 1 / 2) False halfSettled) = 0 \<and>
   totalProfit (updateTradeResult ''102'' (- 1 / 2) False halfSettled) =
     totalProfit halfSettled + 1 / 2 \<and>
   bothCompleted (fst (updateLegs ''102'' (- 1) False halfPair)) \<and>
   combinedProfit (fst (updateLegs ''102'' (- 1) False halfPair)) \<le> 0 \<and>
   consecutiveLosses (updateTradeResult ''102'' (- 1) False halfSettled) =
     consecutiveLosses halfSettled + 1 \<and>
   totalLoss (updateTradeResult ''102'' (- 1) False halfSettled) = totalLoss halfSettled + 0"
proof -
  have h: "tradeHistory halfSettled = [] @ halfPair # []"
    by (simp add: sample_defs)
  have n: "\<forall>q \<in> set []. \<not> hasContract ''102'' q" by simp
  have c: "hasContract ''102'' halfPair" by (simp add: hasContract_def sample_defs)
  have b1: "bothCompleted (fst (updateLegs ''102'' (- 1 / 2) False halfPair))"
    by (simp add: settle_defs sample_defs)
  have b2: "bothCompleted (fst (updateLegs ''102'' (- 1) False halfPair))"
    by (simp add: settle_defs sample_defs)
  have p1: "combinedProfit (fst (updateLegs ''102'' (- 1 / 2) False halfPair)) = 1 / 2"
    by (simp add: settle_defs sample_defs)
  have p2: "combinedProfit (fst (updateLegs ''102'' (- 1) False halfPair)) = 0"
    by (simp add: settle_defs sample_defs)
  show ?thesis
    using h n c b1 b2 p1 p2 settlement_updates_totals [OF h n c b1] settlement_updates_totals [OF h n c b2] by simp
qed

lemma evolves_refl: "evolves q q"
  by (simp add: evolves_def)


lemma pairClosedOk_complete: "bothCompleted q \<Longrightarrow> pairClosedOk (fst (completePair q st))"
  by (simp add: completePair_def Let_def pairClosedOk_def bothCompleted_def combinedProfit_def)

lemma evolves_complete:
  assumes "bothCompleted (fst (updateLegs cid p w q))"
  shows "evolves q (fst (completePair (fst (updateLegs cid p w q)) st))"
proof -
  have "pair_id (fst (completePair (fst (updateLegs cid p w q)) st)) = pair_id q"
    by (simp add: completePair_def Let_def updateLegs_id)
  moreover have "pair_status (fst (completePair (fst (updateLegs cid p w q)) st)) = P_completed"
    by (simp add: completePair_def Let_def)
  ultimately show ?thesis
    using pairClosedOk_complete [OF assms] by (simp add: evolves_def)
qed

lemma evolves_partial:
  assumes "\<not> bothCompleted (fst (updateLegs cid p w q))"
  shows "evolves q (fst (updateLegs cid p w q))"
proof -
  have nb: "\<not> bothCompleted q" using assms updateLegs_bothCompleted by blast
  have "pairClosedOk q \<Longrightarrow> pair_status q \<noteq> P_completed"
    using nb by (auto simp: pairClosedOk_def)
  then show ?thesis
    by (auto simp: evolves_def updateLegs_id updateLegs_status pairClosedOk_def)
qed

lemma updateLoop_evolves:
  "list_all2 evolves h (fst (updateLoop cid p w h st))"
proof (induction h)
  case Nil
  then show ?case by simp
next
  case (Cons q rest)
  obtain q1 u where u: "updateLegs cid p w q = (q1, u)" by (cases "updateLegs cid p w q")
  have q1: "q1 = fst (updateLegs cid p w q)" using u by simp
  have rest: "list_all2 evolves rest rest" by (simp add: list_all2_refl evolves_refl)
  show ?case
  proof (cases u)
    case True
    show ?thesis
    proof (cases "bothCompleted q1")
      case True
      then have "evolves q (fst (completePair q1 st))" unfolding q1 by (rule evolves_complete)
      then show ?thesis using u \<open>u\<close> True rest by (cases "completePair q1 st") simp
    next
      case False
      then have "evolves q q1" unfolding q1 by (rule evolves_partial)
      then show ?thesis using u \<open>u\<close> False rest by simp
    qed
  next
    case False
    then show ?thesis using u Cons.IH
      by (cases "updateLoop cid p w rest st") (simp add: evolves_refl)
  qed
qed

lemma updateTradeResult_evolves:
  "list_all2 evolves (tradeHistory st) (tradeHistory (updateTradeResult cid p w st))"
  using updateLoop_evolves [of "tradeHistory st" cid p w st]
  by (cases "updateLoop cid p w (tradeHistory st) st") (simp add: updateTradeResult_def)






section \<open>Placing a pair\<close>

lemma executeSingleTrade_quote_fails:
  assumes "currentMarket st \<noteq> None"
    and "\<forall>r. getProposal env r = Inl e"
  shows "executeSingleTrade env st t config = Inl e"
  using assms by (auto simp: executeSingleTrade_def Let_def split: option.splits)

lemma executeSingleTrade_buy_fails:
  assumes "currentMarket st \<noteq> None"
    and "\<forall>r. \<exists>q. getProposal env r = Inr q"
    and "\<forall>b. buyContract env b = Inl e"
  shows "executeSingleTrade env st t config = Inl e"
proof -
  obtain m where m: "currentMarket st = Some m" using assms(1) by auto
  let ?req = "\<lparr> pr_proposal = 1, pr_amount = stake t, pr_basis = ''stake'',
      pr_contract_type = contractType t, pr_currency = currencyOrUSD st,
      pr_duration = duration config, pr_duration_unit = ''s'',
      pr_symbol = selectedMarket config, pr_barrier = numToString env (barrier t) \<rparr>"
  obtain q where q: "getProposal env ?req = Inr q" using assms(2) by blast
  show ?thesis
    unfolding executeSingleTrade_def Let_def m by (simp add: q assms(3))
qed

lemma promiseAll2_fails: "isl a \<or> isl b \<Longrightarrow> isl (promiseAll2 f a b)"
  by (cases a; cases b) (simp_all add: promiseAll2_def)

lemma executeTradePair_failure_keeps_state:
  "isl (fst (executeTradePair env lf now st config)) \<Longrightarrow>
   snd (executeTradePair env lf now st config) = st"
  by (auto simp: executeTradePair_def split: sum.splits prod.splits)

text \<open>
  C7. When the quote or the buy of either leg fails, \<open>executeTradePair\<close> fails, with
  an error for its caller, and leaves the session as it found it: no pair enters the
  history, and \<open>totalProfit\<close>, \<open>totalLoss\<close> and \<open>consecutiveLosses\<close> keep their values.
\<close>

theorem failed_leg_leaves_state:
  assumes "legFails env now st config"
  shows "isl (fst (executeTradePair env lf now st config)) \<and>
         snd (executeTradePair env lf now st config) = st \<and>
         tradeHistory (snd (executeTradePair env lf now st config)) = tradeHistory st \<and>
         totalProfit (snd (executeTradePair env lf now st config)) = totalProfit st \<and>
         totalLoss (snd (executeTradePair env lf now st config)) = totalLoss st \<and>
         consecutiveLosses (snd (executeTradePair env lf now st config)) = consecutiveLosses st"
proof -
  obtain pp where pp: "preparePair env now st config = Inr pp"
    and legs: "isl (executeSingleTrade env st (pp_higher pp) config) \<or>
               isl (executeSingleTrade env st (pp_lower pp) config)"
    using assms by (auto simp: legFails_def split: sum.splits)
  have "isl (promiseAll2 lf (executeSingleTrade env st (pp_higher pp) config)
                            (executeSingleTrade env st (pp_lower pp) config))"
    using legs by (rule promiseAll2_fails)
  then have f: "isl (fst (executeTradePair env lf now st config))"
    by (auto simp: executeTradePair_def pp split: sum.splits)
  then have "snd (executeTradePair env lf now st config) = st"
    by (rule executeTradePair_failure_keeps_state)
  then show ?thesis using f by simp
qed

lemmas sample_defs2 =
  sampleConfig_def refusingPut_def session_def acct_def marketR10_def strN_def

lemma legFails_sample: "legFails refusingPut 1 (session [] 0) sampleConfig"
  by (simp add: legFails_def preparePair_def executeSingleTrade_def calculateBarriers_def
      calculateStakeWithMartingale_def contractType_def currencyOrUSD_def Let_def sample_defs2)

theorem failed_leg_leaves_state_witness:
  "legFails refusingPut 1 (session [] 0) sampleConfig \<and>
   isl (fst (executeTradePair refusingPut False 1 (session [] 0) sampleConfig)) \<and>
   snd (executeTradePair refusingPut False 1 (session [] 0) sampleConfig) = session [] 0 \<and>
   tradeHistory (snd (executeTradePair refusingPut False 1 (session [] 0) sampleConfig)) = []"
  using legFails_sample failed_leg_leaves_state [OF legFails_sample, of False] by (simp add: session_def)

lemma executeTradePair_success:
  assumes "preparePair env now st config = Inr pp"
    and "executeSingleTrade env st (pp_higher pp) config = Inr h"
    and "executeSingleTrade env st (pp_lower pp) config = Inr l"
  shows "executeTradePair env lf now st config =
           (Inr (fst (recordPair env pp h l st)), snd (recordPair env pp h l st)) \<and>
         tradeHistory (snd (executeTradePair env lf now st config)) =
           fst (recordPair env pp h l st) # tradeHistory st"
  using assms by (simp add: executeTradePair_def promiseAll2_def recordPair_def Let_def)

section \<open>Stopping the loop\<close>

text \<open>
  The requests of the loop's legs are those \<open>executeSingleTrade\<close> sends.
\<close>

lemma executeSingleTrade_requests:
  "executeSingleTrade env st t config =
     (case currentMarket st of
        None \<Rightarrow> Inl (Error ''No market selected'')
      | Some m \<Rightarrow>
          (case getProposal env (proposalRequestOf env st t config) of
             Inl e \<Rightarrow> Inl e
           | Inr proposal \<Rightarrow> buyContract env (buyRequestOf env st t config proposal)))"
  by (simp add: executeSingleTrade_def proposalRequestOf_def buyRequestOf_def Let_def
      split: option.splits sum.splits)

lemma completePair_isTrading: "isTrading (snd (completePair q st)) = isTrading st"
  by (simp add: completePair_def Let_def)

lemma updateLoop_isTrading: "isTrading (snd (updateLoop cid p w h st)) = isTrading st"
proof (induction h)
  case Nil
  then show ?case by simp
next
  case (Cons q rest)
  obtain q1 u where u: "updateLegs cid p w q = (q1, u)" by (cases "updateLegs cid p w q")
  show ?case
  proof (cases u)
    case True
    then show ?thesis using u completePair_isTrading [of q1 st]
      by (cases "completePair q1 st") simp
  next
    case False
    then show ?thesis using u Cons.IH by (cases "updateLoop cid p w rest st") simp
  qed
qed

lemma updateTradeResult_isTrading:
  "isTrading (updateTradeResult cid p w st) = isTrading st"
  using updateLoop_isTrading [of cid p w "tradeHistory st" st]
  by (cases "updateLoop cid p w (tradeHistory st) st") (simp add: updateTradeResult_def)

lemma updateTradeResult_length:
  "length (tradeHistory (updateTradeResult cid p w st)) = length (tradeHistory st)"
  using updateTradeResult_evolves [of st cid p w] by (simp add: list_all2_lengthD)

lemma balanceUpdate_keeps:
  "isTrading (balanceUpdate b st) = isTrading st"
  "tradeHistory (balanceUpdate b st) = tradeHistory st"
  by (simp_all add: balanceUpdate_def split: option.splits)

lemma recordPair_keeps:
  "isTrading (snd (recordPair env pp h l st)) = isTrading st"
  "length (tradeHistory (snd (recordPair env pp h l st))) = Suc (length (tradeHistory st))"
  by (simp_all add: recordPair_def Let_def)

lemma quiet_refl: "\<not> isTrading (tradingState eng) \<Longrightarrow> quiet eng eng"
  by (simp add: quiet_def)

lemma quiet_trans: "quiet a b \<Longrightarrow> quiet b c \<Longrightarrow> quiet a c"
  by (auto simp: quiet_def)

text \<open>\<open>stopAutoTrading\<close> touches the flag and the timers only.\<close>

lemma stopAutoTrading_keeps:
  "\<not> isTrading (tradingState (stopAutoTrading eng))"
  "executions (stopAutoTrading eng) = executions eng"
  "venueCalls (stopAutoTrading eng) = venueCalls eng"
  "tradeHistory (tradingState (stopAutoTrading eng)) = tradeHistory (tradingState eng)"
  by (simp_all add: stopAutoTrading_def Let_def split: option.splits)

lemma stopAutoTrading_clears:
  "tradeTimeout (stopAutoTrading eng) = None \<and>
   (\<forall>h. tradeTimeout eng = Some h \<longrightarrow> h \<notin> fst ` set (timers (stopAutoTrading eng)))"
  by (auto simp: stopAutoTrading_def clearTimeout_def Let_def split: option.splits)

lemma stopAutoTrading_measures:
  "proposalCalls (stopAutoTrading eng) = proposalCalls eng"
  "buyCalls (stopAutoTrading eng) = buyCalls eng"
  "buysAhead (stopAutoTrading eng) = buysAhead eng"
  "pairsAhead (stopAutoTrading eng) = pairsAhead eng"
  by (simp_all add: proposalCalls_def buyCalls_def buysAhead_def pairsAhead_def
      stopAutoTrading_keeps)

lemma quiet_stop: "quiet eng (stopAutoTrading eng)"
  by (simp add: quiet_def stopAutoTrading_keeps stopAutoTrading_measures)

lemma sum_list_map_update:
  fixes f :: "'a \<Rightarrow> nat"
  shows "i < length xs \<Longrightarrow>
         sum_list (map f (xs[i := y])) + f (xs ! i) = sum_list (map f xs) + f y"
proof (induction xs arbitrary: i)
  case Nil
  then show ?case by simp
next
  case (Cons x xs)
  then show ?case by (cases i) auto
qed

text \<open>An execution changes: the effect on what is to come.\<close>

lemma update_execution:
  assumes "i < length (executions eng)"
    and "executions eng' = (executions eng)[i := ex]"
  shows "buysAhead eng' + buysToCome (executions eng ! i) = buysAhead eng + buysToCome ex"
    and "pairsAhead eng' + pairToCome (executions eng ! i) = pairsAhead eng + pairToCome ex"
    and "length (executions eng') = length (executions eng)"
  using assms sum_list_map_update [of i "executions eng"]
  by (simp_all add: buysAhead_def pairsAhead_def)

lemma toCome_failed:
  "buysToCome (setLeg side (LegFailed e) ex) \<le> buysToCome ex"
  "pairToCome (setLeg side (LegFailed e) ex) = 0"
  "buysToCome (ex\<lparr> ex_rejected := r \<rparr>) = buysToCome ex"
  "pairToCome (ex\<lparr> ex_rejected := r \<rparr>) = pairToCome ex"
  by (simp_all add: buysToCome_def pairToCome_def setLeg_def)

lemma toCome_quoted:
  assumes "legOf side ex = AwaitQuote"
  shows "Suc (buysToCome (setLeg side AwaitBuy ex)) = buysToCome ex"
    and "pairToCome (setLeg side AwaitBuy ex) = pairToCome ex"
  using assms
  by (auto simp: buysToCome_def pairToCome_def setLeg_def legOf_def split: if_splits
      elim: bothBought.elims)

lemma toCome_bought:
  assumes "legOf side ex = AwaitBuy"
  shows "buysToCome (setLeg side (Bought r) ex) = buysToCome ex"
    and "bothBought (ex_higher (setLeg side (Bought r) ex)) (ex_lower (setLeg side (Bought r) ex))
           = None \<Longrightarrow> pairToCome (setLeg side (Bought r) ex) \<le> pairToCome ex"
    and "bothBought (ex_higher (setLeg side (Bought r) ex)) (ex_lower (setLeg side (Bought r) ex))
           = Some hl \<Longrightarrow>
         pairToCome (setLeg side (Bought r) ex) = 0 \<and> pairToCome ex = 1"
  using assms
  by (auto simp: buysToCome_def pairToCome_def setLeg_def legOf_def split: if_splits
      elim!: bothBought.elims)

lemma quiet_update:
  assumes "\<not> isTrading (tradingState eng)" "i < length (executions eng)"
    and "buysToCome ex \<le> buysToCome (executions eng ! i)"
    and "pairToCome ex \<le> pairToCome (executions eng ! i)"
  shows "quiet eng (eng\<lparr> executions := (executions eng)[i := ex] \<rparr>)"
proof -
  let ?eng' = "eng\<lparr> executions := (executions eng)[i := ex] \<rparr>"
  have u: "buysAhead ?eng' + buysToCome (executions eng ! i) = buysAhead eng + buysToCome ex"
    "pairsAhead ?eng' + pairToCome (executions eng ! i) = pairsAhead eng + pairToCome ex"
    using update_execution [OF assms(2), of ?eng' ex] by simp_all
  have "buysAhead ?eng' \<le> buysAhead eng" "pairsAhead ?eng' \<le> pairsAhead eng"
    using u assms(3,4) by linarith+
  then show ?thesis using assms(1)
    by (simp add: quiet_def proposalCalls_def buyCalls_def)
qed

lemma legRejects_quiet:
  assumes "\<not> isTrading (tradingState eng)" "i < length (executions eng)"
  shows "quiet eng (legRejects i side e eng)"
proof -
  let ?ex = "setLeg side (LegFailed e) (executions eng ! i)"
  show ?thesis
  proof (cases "ex_rejected ?ex")
    case True
    have "quiet eng (eng\<lparr> executions := (executions eng)[i := ?ex] \<rparr>)"
      using assms by (rule quiet_update) (simp_all add: toCome_failed)
    then show ?thesis using True by (simp add: legRejects_def Let_def)
  next
    case False
    let ?eng1 = "eng\<lparr> executions := (executions eng)[i := ?ex\<lparr> ex_rejected := True \<rparr>] \<rparr>"
    have "quiet eng ?eng1"
      using assms by (rule quiet_update) (simp_all add: toCome_failed)
    then have "quiet eng (stopAutoTrading ?eng1)"
      using quiet_stop [of ?eng1] by (rule quiet_trans)
    then show ?thesis using False by (simp add: legRejects_def Let_def)
  qed
qed

lemma quoteArrives_quiet:
  assumes "\<not> isTrading (tradingState eng)"
  shows "quiet eng (quoteArrives env i side reply eng)"
proof (cases "i < length (executions eng) \<and> legOf side (executions eng ! i) = AwaitQuote")
  case False
  then show ?thesis using assms by (auto simp: quoteArrives_def quiet_refl)
next
  case True
  then have i: "i < length (executions eng)"
    and q: "legOf side (executions eng ! i) = AwaitQuote" by simp_all
  show ?thesis
  proof (cases reply)
    case (Inl e)
    then show ?thesis using True legRejects_quiet [OF assms i]
      by (simp add: quoteArrives_def Let_def)
  next
    case (Inr proposal)
    let ?ex = "setLeg side AwaitBuy (executions eng ! i)"
    let ?b = "BuyCall (buyRequestOf env (tradingState eng)
                (tradeOf side (ex_pair (executions eng ! i)))
                (ex_config (executions eng ! i)) proposal)"
    let ?eng' = "eng\<lparr> executions := (executions eng)[i := ?ex],
                      venueCalls := venueCalls eng @ [?b] \<rparr>"
    have e: "quoteArrives env i side reply eng = ?eng'"
      using True Inr by (simp add: quoteArrives_def Let_def)
    have u: "buysAhead ?eng' + buysToCome (executions eng ! i) = buysAhead eng + buysToCome ?ex"
      "pairsAhead ?eng' + pairToCome (executions eng ! i) = pairsAhead eng + pairToCome ?ex"
      using update_execution [OF i, of ?eng' ?ex] by simp_all
    have "Suc (buysAhead ?eng') = buysAhead eng" "pairsAhead ?eng' = pairsAhead eng"
      using u toCome_quoted [OF q] by linarith+
    then have "quiet eng ?eng'" using assms
      by (simp add: quiet_def proposalCalls_def buyCalls_def)
    then show ?thesis unfolding e .
  qed
qed

lemma executionResolves_fields:
  "isTrading (tradingState (executionResolves env ex h l eng)) = isTrading (tradingState eng)"
  "length (tradeHistory (tradingState (executionResolves env ex h l eng))) =
     Suc (length (tradeHistory (tradingState eng)))"
  "executions (executionResolves env ex h l eng) = executions eng"
  "venueCalls (executionResolves env ex h l eng) = venueCalls eng"
  by (simp_all add: executionResolves_def Let_def recordPair_keeps)

lemma buyArrives_quiet:
  assumes "\<not> isTrading (tradingState eng)"
  shows "quiet eng (buyArrives env i side reply eng)"
proof (cases "i < length (executions eng) \<and> legOf side (executions eng ! i) = AwaitBuy")
  case False
  then show ?thesis using assms by (auto simp: buyArrives_def quiet_refl)
next
  case True
  then have i: "i < length (executions eng)"
    and q: "legOf side (executions eng ! i) = AwaitBuy" by simp_all
  show ?thesis
  proof (cases reply)
    case (Inl e)
    then show ?thesis using True legRejects_quiet [OF assms i]
      by (simp add: buyArrives_def)
  next
    case (Inr r)
    let ?ex = "setLeg side (Bought r) (executions eng ! i)"
    let ?eng1 = "eng\<lparr> executions := (executions eng)[i := ?ex] \<rparr>"
    show ?thesis
    proof (cases "bothBought (ex_higher ?ex) (ex_lower ?ex)")
      case None
      have "quiet eng ?eng1"
        using assms i toCome_bought(1,2) [OF q] None by (intro quiet_update) simp_all
      then show ?thesis using True Inr None by (simp add: buyArrives_def Let_def)
    next
      case (Some hl)
      obtain h l where hl: "hl = (h, l)" by (cases hl)
      let ?eng' = "executionResolves env ?ex h l ?eng1"
      have e: "buyArrives env i side reply eng = ?eng'"
        using True Inr Some hl by (simp add: buyArrives_def Let_def)
      have u: "buysAhead ?eng1 + buysToCome (executions eng ! i) = buysAhead eng + buysToCome ?ex"
        "pairsAhead ?eng1 + pairToCome (executions eng ! i) = pairsAhead eng + pairToCome ?ex"
        using update_execution [OF i, of ?eng1 ?ex] by simp_all
      have p: "pairToCome ?ex = 0" "pairToCome (executions eng ! i) = 1"
        using toCome_bought(3) [OF q Some] by simp_all
      have m: "buysAhead ?eng1 = buysAhead eng" "Suc (pairsAhead ?eng1) = pairsAhead eng"
        using u p toCome_bought(1) [OF q, of r] by linarith+
      have f: "buysAhead ?eng' = buysAhead ?eng1" "pairsAhead ?eng' = pairsAhead ?eng1"
        "proposalCalls ?eng' = proposalCalls eng" "buyCalls ?eng' = buyCalls eng"
        by (simp_all add: buysAhead_def pairsAhead_def proposalCalls_def buyCalls_def
            executionResolves_fields)
      have "quiet eng ?eng'"
        using assms m f by (simp add: quiet_def executionResolves_fields)
      then show ?thesis unfolding e .
    qed
  qed
qed

lemma executeNextTrade_off:
  "\<not> isTrading (tradingState eng) \<Longrightarrow> executeNextTrade env now config eng = eng"
  by (simp add: executeNextTrade_def)

lemma timerFires_quiet:
  assumes "\<not> isTrading (tradingState eng)"
  shows "quiet eng (timerFires env h now eng)"
proof (cases "find (\<lambda>t. fst t = h) (timers eng)")
  case None
  then show ?thesis using assms by (simp add: timerFires_def quiet_refl)
next
  case (Some t)
  obtain h' config delay where t: "t = (h', config, delay)" by (cases t)
  let ?eng1 = "eng\<lparr> timers := clearTimeout h (timers eng) \<rparr>"
  have "timerFires env h now eng = ?eng1"
    using Some t assms by (simp add: timerFires_def executeNextTrade_off)
  moreover have "quiet eng ?eng1"
    using assms
    by (simp add: quiet_def proposalCalls_def buyCalls_def buysAhead_def pairsAhead_def)
  ultimately show ?thesis by simp
qed

lemma step_quiet:
  assumes "\<not> isStart ev" "\<not> isTrading (tradingState eng)"
  shows "quiet eng (step env ev eng)"
proof (cases ev)
  case (StartAutoTrading now config)
  then show ?thesis using assms(1) by simp
next
  case StopAutoTrading
  then show ?thesis using quiet_stop by simp
next
  case (TimerFires h now)
  then show ?thesis using timerFires_quiet [OF assms(2)] by simp
next
  case (QuoteArrives i side reply)
  then show ?thesis using quoteArrives_quiet [OF assms(2)] by simp
next
  case (BuyArrives i side reply)
  then show ?thesis using buyArrives_quiet [OF assms(2)] by simp
next
  case (UpdateTradeResult cid p w)
  then show ?thesis using assms(2)
    by (simp add: quiet_def proposalCalls_def buyCalls_def buysAhead_def pairsAhead_def
        updateTradeResult_isTrading updateTradeResult_length)
next
  case (BalanceUpdate b)
  then show ?thesis using assms(2)
    by (simp add: quiet_def proposalCalls_def buyCalls_def buysAhead_def pairsAhead_def
        balanceUpdate_keeps)
qed

lemma run_quiet:
  assumes "\<forall>ev \<in> set evs. \<not> isStart ev" "\<not> isTrading (tradingState eng)"
  shows "quiet eng (run env evs eng)"
  using assms
proof (induction evs arbitrary: eng)
  case Nil
  then show ?case by (simp add: quiet_refl)
next
  case (Cons ev evs)
  have s: "quiet eng (step env ev eng)" using step_quiet [of ev eng env] Cons.prems by simp
  then have "\<not> isTrading (tradingState (step env ev eng))" by (simp add: quiet_def)
  then have "quiet (step env ev eng) (run env evs (step env ev eng))"
    using Cons.IH Cons.prems(1) by simp
  then show ?case using s quiet_trans by simp
qed

text \<open>
  C8, amended. Once \<open>stopAutoTrading\<close> has returned, whatever follows short of a new
  \<open>startAutoTrading\<close> (timers firing, among them one that was pending or one set
  afterwards, replies to quote and buy requests, settlements, balance updates, further
  stops), trading stays off and the loop starts no further iteration: it sends no
  further quote request and begins no further execution. An execution in flight at
  the stop is not cancelled: the loop still sends buy requests and records pairs, but
  no more buy requests than legs were waiting for their quote at the stop, and no
  more pairs than executions were unfinished at the stop.
\<close>

theorem stopped_loop_starts_no_iteration:
  assumes "\<forall>ev \<in> set evs. \<not> isStart ev"
  shows "\<not> isTrading (tradingState (run env evs (stopAutoTrading eng))) \<and>
         proposalCalls (run env evs (stopAutoTrading eng)) = proposalCalls eng \<and>
         length (executions (run env evs (stopAutoTrading eng))) = length (executions eng) \<and>
         length (buyCalls (run env evs (stopAutoTrading eng)))
           \<le> length (buyCalls eng) + buysAhead eng \<and>
         length (tradeHistory (tradingState (run env evs (stopAutoTrading eng))))
           \<le> length (tradeHistory (tradingState eng)) + pairsAhead eng"
proof -
  have "quiet (stopAutoTrading eng) (run env evs (stopAutoTrading eng))"
    using assms stopAutoTrading_keeps(1) by (rule run_quiet)
  then have "quiet eng (run env evs (stopAutoTrading eng))"
    using quiet_stop [of eng] quiet_trans by blast
  then show ?thesis by (simp add: quiet_def)
qed

lemma preparePair_ready:
  "currentMarket st \<noteq> None \<Longrightarrow> accountInfo st \<noteq> None \<Longrightarrow>
   \<not> isl (preparePair env now st config)"
  by (simp add: preparePair_def Let_def split: prod.splits)

lemma preparePair_not_ready:
  "currentMarket st = None \<or> accountInfo st = None \<Longrightarrow>
   preparePair env now st config = Inl (Error ''Market or account info not available'')"
  by (auto simp: preparePair_def)

lemmas loop_defs =
  quoteArrives_def buyArrives_def executionResolves_def legOf_def setLeg_def tradeOf_def
  stopAutoTrading_def clearTimeout_def recordPair_def Let_def

lemma busyEngine_measures:
  "isTrading (tradingState busyEngine)" "length (proposalCalls busyEngine) = 2"
  "length (buyCalls busyEngine) = 0" "buysAhead busyEngine = 2" "pairsAhead busyEngine = 1"
  "length (tradeHistory (tradingState busyEngine)) = 0" "length (executions busyEngine) = 1"
  "tradeTimeout busyEngine = Some 1"
  by (simp_all add: busyEngine_def sampleExecution_def proposalCalls_def buyCalls_def
      buysAhead_def pairsAhead_def buysToCome_def pairToCome_def session_def)

lemma venueAnswers_eval:
  "length (buyCalls (run refusingPut venueAnswers (stopAutoTrading busyEngine))) = 2 \<and>
   length (tradeHistory (tradingState (run refusingPut venueAnswers (stopAutoTrading busyEngine)))) = 1 \<and>
   tradeTimeout (run refusingPut venueAnswers (stopAutoTrading busyEngine)) = Some 2 \<and>
   map fst (timers (run refusingPut venueAnswers (stopAutoTrading busyEngine))) = [2]"
  by (simp add: venueAnswers_def busyEngine_def sampleExecution_def buyCalls_def loop_defs
      session_def)

text \<open>
  C8, as the claim states it, fails when an execution is in flight. The engine has a
  timer pending and an execution waiting for both its quotes, and is stopped: the
  timer is cancelled, no buy request has been sent and the history is empty. Then the
  venue answers: on each quote the leg sends its buy request, and when both buys are
  confirmed the pair is recorded and the timer of the next iteration is set, all after
  \<open>stopAutoTrading\<close> has returned. So two buy requests are sent and a pair enters the
  history after the stop.
\<close>

theorem in_flight_execution_completes_counterexample:
  "list_all (\<lambda>ev. \<not> isStart ev) venueAnswers \<and>
   tradeTimeout (stopAutoTrading busyEngine) = None \<and>
   timers (stopAutoTrading busyEngine) = [] \<and>
   length (buyCalls (stopAutoTrading busyEngine)) = 0 \<and>
   length (tradeHistory (tradingState (stopAutoTrading busyEngine))) = 0 \<and>
   length (buyCalls (run refusingPut venueAnswers (stopAutoTrading busyEngine))) = 2 \<and>
   length (tradeHistory (tradingState (run refusingPut venueAnswers (stopAutoTrading busyEngine)))) = 1 \<and>
   tradeTimeout (run refusingPut venueAnswers (stopAutoTrading busyEngine)) = Some 2"
proof -
  have a: "list_all (\<lambda>ev. \<not> isStart ev) venueAnswers" by (simp add: venueAnswers_def)
  have b: "tradeTimeout (stopAutoTrading busyEngine) = None"
    "timers (stopAutoTrading busyEngine) = []"
    "length (buyCalls (stopAutoTrading busyEngine)) = 0"
    "length (tradeHistory (tradingState (stopAutoTrading busyEngine))) = 0"
    by (simp_all add: busyEngine_def stopAutoTrading_def clearTimeout_def Let_def buyCalls_def
        session_def)
  show ?thesis using a b venueAnswers_eval by blast
qed

text \<open>Left running, the loop requests the quotes of a new pair when its timer fires.\<close>

lemma loop_runs_when_trading:
  "length (proposalCalls (timerFires refusingPut 1 5 busyEngine)) = 4 \<and>
   length (executions (timerFires refusingPut 1 5 busyEngine)) = 2"
proof -
  let ?st = "(session [] 0)\<lparr> isTrading := True \<rparr>"
  have "\<not> isl (preparePair refusingPut 5 ?st sampleConfig)"
    by (rule preparePair_ready) (simp_all add: session_def)
  then obtain pp where pp: "preparePair refusingPut 5 ?st sampleConfig = Inr pp"
    by (cases "preparePair refusingPut 5 ?st sampleConfig") auto
  have can: "canExecuteTrade ?st sampleConfig"
    by (simp add: canExecuteTrade_def calculateStakeWithMartingale_def Let_def sample_defs2)
  show ?thesis using pp can
    by (simp add: busyEngine_def timerFires_def clearTimeout_def executeNextTrade_def
        proposalCalls_def)
qed

theorem stopped_loop_starts_no_iteration_witness:
  "list_all (\<lambda>ev. \<not> isStart ev)
     (venueAnswers @ [TimerFires 2 9, TimerFires 1 10, BalanceUpdate 500]) \<and>
   isTrading (tradingState busyEngine) \<and>
   \<not> isTrading (tradingState (run refusingPut
       (venueAnswers @ [TimerFires 2 9, TimerFires 1 10, BalanceUpdate 500])
       (stopAutoTrading busyEngine))) \<and>
   proposalCalls (run refusingPut
       (venueAnswers @ [TimerFires 2 9, TimerFires 1 10, BalanceUpdate 500])
       (stopAutoTrading busyEngine)) = proposalCalls busyEngine \<and>
   length (executions (run refusingPut
       (venueAnswers @ [TimerFires 2 9, TimerFires 1 10, BalanceUpdate 500])
       (stopAutoTrading busyEngine))) = 1 \<and>
   length (buyCalls (run refusingPut
       (venueAnswers @ [TimerFires 2 9, TimerFires 1 10, BalanceUpdate 500])
       (stopAutoTrading busyEngine))) \<le> 2 \<and>
   length (tradeHistory (tradingState (run refusingPut
       (venueAnswers @ [TimerFires 2 9, TimerFires 1 10, BalanceUpdate 500])
       (stopAutoTrading busyEngine)))) \<le> 1"
proof -
  have h: "\<forall>ev \<in> set (venueAnswers @ [TimerFires 2 9, TimerFires 1 10, BalanceUpdate 500]).
             \<not> isStart ev"
    by (simp add: venueAnswers_def)
  show ?thesis
    using h busyEngine_measures
      stopped_loop_starts_no_iteration [OF h, of refusingPut busyEngine]
    unfolding list_all_iff by simp
qed

section \<open>Pending calls and their timeout\<close>








lemma wellFormed_new: "wellFormed newDerivAPI"
  by (simp add: wellFormed_def newDerivAPI_def)











section \<open>Reconnection\<close>

lemma closes_general:
  assumes "maxReconnectAttempts api = 5" "reconnectAttempts api \<le> 5"
  shows "scheduled (closes n api) =
           scheduled api @
           map (\<lambda>k. 2 ^ k * 1000) [Suc (reconnectAttempts api) ..< Suc (min (reconnectAttempts api + n) 5)] \<and>
         reconnectAttempts (closes n api) = min (reconnectAttempts api + n) 5 \<and>
         consoleErrors (closes n api) =
           consoleErrors api @
           replicate (reconnectAttempts api + n - 5) ''Max reconnection attempts reached'' \<and>
         maxReconnectAttempts (closes n api) = 5"
  using assms
proof (induction n arbitrary: api)
  case 0
  then show ?case by simp
next
  case (Suc n)
  let ?a = "reconnectAttempts api"
  show ?case
  proof (cases "?a < 5")
    case True
    have o: "reconnectAttempts (onclose api) = Suc ?a"
      "scheduled (onclose api) = scheduled api @ [2 ^ Suc ?a * 1000]"
      "consoleErrors (onclose api) = consoleErrors api"
      "maxReconnectAttempts (onclose api) = 5"
      using True Suc.prems(1) by (simp_all add: onclose_def handleReconnection_def Let_def)
    have ih: "scheduled (closes n (onclose api)) =
           scheduled (onclose api) @
           map (\<lambda>k. 2 ^ k * 1000) [Suc (Suc ?a) ..< Suc (min (Suc ?a + n) 5)] \<and>
         reconnectAttempts (closes n (onclose api)) = min (Suc ?a + n) 5 \<and>
         consoleErrors (closes n (onclose api)) =
           consoleErrors (onclose api) @
           replicate (Suc ?a + n - 5) ''Max reconnection attempts reached'' \<and>
         maxReconnectAttempts (closes n (onclose api)) = 5"
      using Suc.IH [of "onclose api"] o True by (simp del: upt_Suc)
    have lt: "Suc ?a < Suc (min (Suc ?a + n) 5)" using True by simp
    have u: "[Suc ?a ..< Suc (min (Suc ?a + n) 5)] =
        Suc ?a # [Suc (Suc ?a) ..< Suc (min (Suc ?a + n) 5)]"
      using lt by (rule upt_conv_Cons)
    have e: "?a + Suc n = Suc ?a + n" by simp
    show ?thesis unfolding e closes.simps u using ih o by (simp del: upt_Suc)
  next
    case False
    then have a: "?a = 5" using Suc.prems(2) by simp
    have o: "reconnectAttempts (onclose api) = 5"
      "scheduled (onclose api) = scheduled api"
      "consoleErrors (onclose api) = consoleErrors api @ [''Max reconnection attempts reached'']"
      "maxReconnectAttempts (onclose api) = 5"
      using a Suc.prems(1) by (simp_all add: onclose_def handleReconnection_def Let_def)
    have ih: "scheduled (closes n (onclose api)) = scheduled (onclose api) \<and>
         reconnectAttempts (closes n (onclose api)) = 5 \<and>
         consoleErrors (closes n (onclose api)) =
           consoleErrors (onclose api) @ replicate n ''Max reconnection attempts reached'' \<and>
         maxReconnectAttempts (closes n (onclose api)) = 5"
      using Suc.IH [of "onclose api"] o by (simp del: upt_Suc)
    have e: "[Suc ?a ..< Suc (min (?a + Suc n) 5)] = []" using a by simp
    show ?thesis unfolding closes.simps e using ih o a by (simp add: replicate_append_same)
  qed
qed

text \<open>
  C10. From a counter at zero, as a successful open leaves it, \<open>n\<close> closes in a row
  set up reconnections after 2, 4, 8, 16 and 32 seconds, the \<open>k\<close>-th after \<open>2^k\<close>
  seconds, for the first five closes; each close after the fifth sets up nothing and
  logs that the maximum is reached; the counter never passes 5, and an open puts it
  back to zero.
\<close>

theorem reconnection_backoff:
  assumes "maxReconnectAttempts api = 5" "reconnectAttempts api = 0"
  shows "scheduled (closes n api) =
           scheduled api @ map (\<lambda>k. 2 ^ k * 1000) [1 ..< Suc (min n 5)] \<and>
         reconnectAttempts (closes n api) = min n 5 \<and>
         consoleErrors (closes n api) =
           consoleErrors api @ replicate (n - 5) ''Max reconnection attempts reached'' \<and>
         reconnectAttempts (onopen (closes n api)) = 0 \<and>
         maxReconnectAttempts (onopen (closes n api)) = 5 \<and>
         (5 \<le> n \<longrightarrow> scheduled (onclose (closes n api)) = scheduled (closes n api))"
proof -
  have g: "scheduled (closes n api) =
           scheduled api @ map (\<lambda>k. 2 ^ k * 1000) [1 ..< Suc (min n 5)] \<and>
         reconnectAttempts (closes n api) = min n 5 \<and>
         consoleErrors (closes n api) =
           consoleErrors api @ replicate (n - 5) ''Max reconnection attempts reached'' \<and>
         maxReconnectAttempts (closes n api) = 5"
    using closes_general [of api n] assms by (simp del: upt_Suc)
  have x: "5 \<le> n \<longrightarrow> scheduled (onclose (closes n api)) = scheduled (closes n api)"
  proof
    assume "5 \<le> n"
    then have "reconnectAttempts (closes n api) = 5" using g by simp
    then show "scheduled (onclose (closes n api)) = scheduled (closes n api)"
      using g by (simp add: onclose_def handleReconnection_def)
  qed
  have y: "reconnectAttempts (onopen (closes n api)) = 0"
    "maxReconnectAttempts (onopen (closes n api)) = 5"
    using g by (simp_all add: onopen_def)
  show ?thesis using g x y by blast
qed

theorem reconnection_backoff_witness:
  "maxReconnectAttempts openClient = 5 \<and> reconnectAttempts openClient = 0 \<and> (5::nat) \<le> 7 \<and>
   scheduled (closes 7 openClient) = [2000, 4000, 8000, 16000, 32000] \<and>
   reconnectAttempts (closes 7 openClient) = 5 \<and>
   consoleErrors (closes 7 openClient) =
     [''Max reconnection attempts reached'', ''Max reconnection attempts reached''] \<and>
   reconnectAttempts (onopen (closes 7 openClient)) = 0 \<and>
   scheduled (onclose (closes 7 openClient)) = scheduled (closes 7 openClient)"
proof -
  have h: "maxReconnectAttempts openClient = 5" "reconnectAttempts openClient = 0"
    "scheduled openClient = []" "consoleErrors openClient = []"
    by (simp_all add: openClient_def onopen_def newDerivAPI_def)
  have r: "replicate (7 - 5) ''Max reconnection attempts reached'' =
     [''Max reconnection attempts reached'', ''Max reconnection attempts reached'']"
    by (simp add: eval_nat_numeral)
  have m: "min (7::nat) 5 = 5" by simp
  have l: "map (\<lambda>k. 2 ^ k * 1000) [Suc 0 ..< 6] = [2000, 4000, 8000, 16000, 32000::nat]"
    by (simp add: upt_rec)
  show ?thesis using h reconnection_backoff [OF h(1,2), of 7] l unfolding r m by simp
qed

end
